theory Spec2Isabelle
  imports Main "HOL-Library.Log_Nat" "HOL-Library.AList"
begin

section \<open>JavaScript numbers\<close>

text \<open>
  Quantities, unit prices and totals are JavaScript Numbers: IEEE-754 binary64 values.
  A finite value is kept as the rational it denotes; the two infinities and NaN are
  values of their own. The two zeros are identified: nothing in the program divides,
  and every use here (truthiness, comparison, addition, multiplication, \<open>toFixed\<close>,
  JSON output) treats \<open>-0\<close> as \<open>0\<close>.
\<close>

datatype jsnum = Num rat | PosInf | NegInf | NaN

definition pow2 :: "int \<Rightarrow> rat" where
  "pow2 k = (if 0 \<le> k then 2 ^ nat k else 1 / 2 ^ nat (- k))"

text \<open>\<open>ilog2 x\<close> is the binary exponent of a positive \<open>x\<close>: \<open>2^e \<le> x < 2^(e+1)\<close>.\<close>

definition ilog2 :: "rat \<Rightarrow> int" where
  "ilog2 x = (if 1 \<le> x then bitlen \<lfloor>x\<rfloor> - 1 else - bitlen (\<lceil>1 / x\<rceil> - 1))"

definition round_half_even :: "rat \<Rightarrow> int" where
  "round_half_even x =
     (let f = \<lfloor>x\<rfloor>; d = x - of_int f
      in if d < 1 / 2 then f else if 1 / 2 < d then f + 1 else if even f then f else f + 1)"

text \<open>
  Rounding of an exact result to binary64, round-to-nearest with ties to even: 53
  significant bits, the quantum never below \<open>2^-1074\<close> (subnormals), overflow to an
  infinity from \<open>2^1024\<close> on.
\<close>

definition round_to_double :: "rat \<Rightarrow> jsnum" where
  "round_to_double x =
     (if x = 0 then Num 0
      else let q = max (ilog2 \<bar>x\<bar> - 52) (- 1074);
               m = round_half_even (\<bar>x\<bar> / pow2 q);
               y = of_int m * pow2 q
           in if pow2 1024 \<le> y then (if x < 0 then NegInf else PosInf)
              else Num (sgn x * y))"

text \<open>\<open>a * b\<close> and \<open>a + b\<close> on Numbers.\<close>

fun js_mul :: "jsnum \<Rightarrow> jsnum \<Rightarrow> jsnum" where
  "js_mul NaN _ = NaN"
| "js_mul _ NaN = NaN"
| "js_mul (Num a) (Num b) = round_to_double (a * b)"
| "js_mul (Num a) PosInf = (if a = 0 then NaN else if 0 < a then PosInf else NegInf)"
| "js_mul (Num a) NegInf = (if a = 0 then NaN else if 0 < a then NegInf else PosInf)"
| "js_mul PosInf (Num b) = (if b = 0 then NaN else if 0 < b then PosInf else NegInf)"
| "js_mul NegInf (Num b) = (if b = 0 then NaN else if 0 < b then NegInf else PosInf)"
| "js_mul PosInf PosInf = PosInf"
| "js_mul PosInf NegInf = NegInf"
| "js_mul NegInf PosInf = NegInf"
| "js_mul NegInf NegInf = PosInf"

fun js_add :: "jsnum \<Rightarrow> jsnum \<Rightarrow> jsnum" where
  "js_add NaN _ = NaN"
| "js_add _ NaN = NaN"
| "js_add (Num a) (Num b) = round_to_double (a + b)"
| "js_add (Num a) PosInf = PosInf"
| "js_add (Num a) NegInf = NegInf"
| "js_add PosInf (Num b) = PosInf"
| "js_add NegInf (Num b) = NegInf"
| "js_add PosInf PosInf = PosInf"
| "js_add PosInf NegInf = NaN"
| "js_add NegInf PosInf = NaN"
| "js_add NegInf NegInf = NegInf"

text \<open>\<open>x <= 0\<close> and \<open>x < 0\<close>: every comparison with NaN is false.\<close>

fun js_le_zero :: "jsnum \<Rightarrow> bool" where
  "js_le_zero (Num a) = (a \<le> 0)"
| "js_le_zero NegInf = True"
| "js_le_zero PosInf = False"
| "js_le_zero NaN = False"

fun js_lt_zero :: "jsnum \<Rightarrow> bool" where
  "js_lt_zero (Num a) = (a < 0)"
| "js_lt_zero NegInf = True"
| "js_lt_zero PosInf = False"
| "js_lt_zero NaN = False"

text \<open>\<open>Math.min(a, b)\<close>: NaN if either argument is NaN.\<close>

fun Math_min :: "jsnum \<Rightarrow> jsnum \<Rightarrow> jsnum" where
  "Math_min NaN _ = NaN"
| "Math_min _ NaN = NaN"
| "Math_min NegInf _ = NegInf"
| "Math_min _ NegInf = NegInf"
| "Math_min PosInf b = b"
| "Math_min a PosInf = a"
| "Math_min (Num a) (Num b) = Num (min a b)"

text \<open>
  \<open>x.toFixed(f)\<close> returns a string. The model keeps the string by the number it
  spells. For a finite \<open>x\<close> below \<open>10^21\<close> in magnitude the digits are those of the
  integer \<open>n\<close> for which \<open>n / 10^f\<close> is closest to the exact value of \<open>\<bar>x\<bar>\<close>, the larger
  \<open>n\<close> on a tie; from \<open>10^21\<close> on the result is \<open>String(x)\<close>, which reads back as \<open>x\<close>.
  \<open>Number(s)\<close> reads such a string back, rounding the decimal to binary64.
\<close>

datatype numeric_string = Decimal rat | InfinityStr | NegInfinityStr | NaNStr

definition toFixed :: "nat \<Rightarrow> jsnum \<Rightarrow> numeric_string" where
  "toFixed f x =
     (case x of
        NaN \<Rightarrow> NaNStr
      | PosInf \<Rightarrow> InfinityStr
      | NegInf \<Rightarrow> NegInfinityStr
      | Num r \<Rightarrow>
          if 10 ^ 21 \<le> \<bar>r\<bar> then Decimal r
          else Decimal (sgn r * of_int \<lfloor>\<bar>r\<bar> * 10 ^ f + 1 / 2\<rfloor> / 10 ^ f))"

fun Number :: "numeric_string \<Rightarrow> jsnum" where
  "Number (Decimal r) = round_to_double r"
| "Number InfinityStr = PosInf"
| "Number NegInfinityStr = NegInf"
| "Number NaNStr = NaN"

text \<open>A property that is absent reads as \<open>undefined\<close>, which is NaN as a Number.\<close>

definition toNumber :: "jsnum option \<Rightarrow> jsnum" where
  "toNumber v = (case v of None \<Rightarrow> NaN | Some x \<Rightarrow> x)"

text \<open>
  Truthiness, as \<open>!v\<close> and \<open>if (v)\<close> test it: an absent value and the empty string
  are falsy, and so are the Numbers \<open>0\<close> and NaN.
\<close>

definition truthy_str :: "string option \<Rightarrow> bool" where
  "truthy_str v = (case v of None \<Rightarrow> False | Some s \<Rightarrow> s \<noteq> [])"

definition truthy_num :: "jsnum option \<Rightarrow> bool" where
  "truthy_num v = (case v of None \<Rightarrow> False | Some x \<Rightarrow> x \<noteq> NaN \<and> x \<noteq> Num 0)"

section \<open>Data model\<close>

text \<open>
  Request bodies are taken at the types of the API: strings, Numbers and arrays of
  item objects, each field optional. Timestamps are instants in milliseconds since
  the epoch: the program stores \<open>new Date().toISOString()\<close> and only ever reads it
  back through \<open>new Date(order.placementDate)\<close>, which gives the same instant.
\<close>

type_synonym timestamp = int

record item =
  productId :: "string option"
  quantity :: "jsnum option"
  unitPrice :: "jsnum option"

record order =
  orderId :: string
  customerId :: string
  placementDate :: timestamp
  lastUpdated :: timestamp
  status :: string
  items :: "item list"
  totalAmount :: jsnum
  statusReason :: "string option"

text \<open>
  The two \<open>Map\<close>s of the server, in insertion order: \<open>Map.get\<close> is \<open>map_of\<close>,
  \<open>Map.set\<close> is \<open>AList.update\<close> (an existing key keeps its place, a new one goes
  last), \<open>Map.values\<close> is \<open>map snd\<close>.
\<close>

record state =
  orders :: "(string \<times> order) list"
  idempotencyKeys :: "(string \<times> string) list"

text \<open>
  A handler answers with \<open>res.status(c).json(payload)\<close>: either the error body
  \<open>{error, message}\<close> or a payload. Requests are those that passed \<open>authenticateToken\<close>.
\<close>

datatype failure = Failure nat string string

datatype 'a success = Success nat 'a

type_synonym 'a response = "failure + 'a success"

section \<open>Status machine\<close>

definition STATUS_TRANSITIONS :: "(string \<times> string list) list" where
  "STATUS_TRANSITIONS =
     [(''pending'', [''confirmed'', ''cancelled'']),
      (''confirmed'', [''processing'', ''cancelled'']),
      (''processing'', [''shipped'', ''cancelled'']),
      (''shipped'', [''delivered'']),
      (''delivered'', []),
      (''cancelled'', [])]"

definition validStatuses :: "string list" where
  "validStatuses =
     [''pending'', ''confirmed'', ''processing'', ''shipped'', ''delivered'', ''cancelled'']"

fun join :: "string list \<Rightarrow> string \<Rightarrow> string" where
  "join [] sep = []"
| "join [x] sep = x"
| "join (x # y # ys) sep = x @ sep @ join (y # ys) sep"

record status_request =
  req_status :: "string option"
  req_reason :: "string option"

text \<open>
  \<open>PATCH /api/v1/orders/:orderId/status\<close>. \<open>STATUS_TRANSITIONS[currentStatus]\<close> is
  no array for a status that is no key of the table; \<open>.includes\<close> then throws, outside
  the handler's \<open>try\<close>, and the error middleware answers 500.
\<close>

definition patch_status ::
  "timestamp \<Rightarrow> string \<Rightarrow> status_request \<Rightarrow> state \<Rightarrow> order response \<times> state" where
  "patch_status now oid req st =
     (case map_of (orders st) oid of
        None \<Rightarrow> (Inl (Failure 404 ''NOT_FOUND'' ''Order not found''), st)
      | Some order \<Rightarrow>
          (case req_status req of
             None \<Rightarrow> (Inl (Failure 400 ''VALIDATION_ERROR'' ''Status is required''), st)
           | Some s \<Rightarrow>
               if s = [] then
                 (Inl (Failure 400 ''VALIDATION_ERROR'' ''Status is required''), st)
               else if s \<notin> set validStatuses then
                 (Inl (Failure 400 ''VALIDATION_ERROR''
                        (''Invalid status. Must be one of: '' @ join validStatuses '', '')), st)
               else
                 (case map_of STATUS_TRANSITIONS (status order) of
                    None \<Rightarrow>
                      (Inl (Failure 500 ''INTERNAL_ERROR'' ''An unexpected error occurred''), st)
                  | Some targets \<Rightarrow>
                      if s \<notin> set targets then
                        (Inl (Failure 409 ''INVALID_STATUS_TRANSITION''
                               (''Cannot transition from '' @ status order @ '' to '' @ s)), st)
                      else
                        let order' = order
                              \<lparr>status := s,
                               lastUpdated := now,
                               statusReason :=
                                 (if truthy_str (req_reason req) then req_reason req
                                  else statusReason order)\<rparr>
                        in (Inr (Success 200 order'),
                            st\<lparr>orders := AList.update oid order' (orders st)\<rparr>))))"

section \<open>Creating orders\<close>

record create_request =
  idempotency_key :: "string option"
  req_customerId :: "string option"
  req_items :: "item list option"

text \<open>The loop of \<open>validateCreateOrder\<close> over the items: the first item that fails answers.\<close>

fun validate_items :: "item list \<Rightarrow> failure option" where
  "validate_items [] = None"
| "validate_items (it # rest) =
     (if \<not> truthy_str (productId it) \<or> \<not> truthy_num (quantity it)
          \<or> \<not> truthy_num (unitPrice it) then
        Some (Failure 400 ''VALIDATION_ERROR''
               ''Each item must have productId, quantity, and unitPrice'')
      else if js_le_zero (toNumber (quantity it)) \<or> js_lt_zero (toNumber (unitPrice it)) then
        Some (Failure 400 ''VALIDATION_ERROR''
               ''Quantity must be positive and unitPrice must be non-negative'')
      else validate_items rest)"

text \<open>
  \<open>validateCreateOrder\<close>: \<open>None\<close> is \<open>next()\<close>. The items are typed as an array, so of
  \<open>!items || !Array.isArray(items) || items.length === 0\<close> the absent and the empty
  array remain.
\<close>

definition validateCreateOrder :: "create_request \<Rightarrow> failure option" where
  "validateCreateOrder req =
     (if \<not> truthy_str (idempotency_key req) then
        Some (Failure 400 ''VALIDATION_ERROR'' ''Idempotency-Key header is required'')
      else if \<not> truthy_str (req_customerId req) then
        Some (Failure 400 ''VALIDATION_ERROR'' ''Customer ID is required'')
      else
        (case req_items req of
           None \<Rightarrow> Some (Failure 400 ''VALIDATION_ERROR'' ''At least one item is required'')
         | Some its \<Rightarrow>
             if its = [] then
               Some (Failure 400 ''VALIDATION_ERROR'' ''At least one item is required'')
             else validate_items its))"

definition calculateTotal :: "item list \<Rightarrow> jsnum" where
  "calculateTotal its =
     foldl (\<lambda>total it. js_add total (js_mul (toNumber (quantity it)) (toNumber (unitPrice it))))
       (Num 0) its"

text \<open>
  \<open>createOrder(customerId, items, orderId = null)\<close>. The value that \<open>uuidv4()\<close> returns
  and the clock reading are inputs.
\<close>

definition createOrder ::
  "string \<Rightarrow> timestamp \<Rightarrow> string \<Rightarrow> item list \<Rightarrow> string option \<Rightarrow> state \<Rightarrow> order \<times> state"
  where
  "createOrder uuid now cid its oid st =
     (let ident = (case oid of
                     None \<Rightarrow> ''ord-'' @ uuid
                   | Some i \<Rightarrow> if i \<noteq> [] then i else ''ord-'' @ uuid);
          order = \<lparr>orderId = ident,
                   customerId = cid,
                   placementDate = now,
                   lastUpdated = now,
                   status = ''pending'',
                   items = map (\<lambda>it. \<lparr>productId = productId it,
                                         quantity = quantity it,
                                         unitPrice = unitPrice it\<rparr>) its,
                   totalAmount = Number (toFixed 2 (calculateTotal its)),
                   statusReason = None\<rparr>
      in (order, st\<lparr>orders := AList.update ident order (orders st)\<rparr>))"

text \<open>
  The handler of \<open>POST /api/v1/orders\<close>, which runs once validation has passed and so
  finds the key, the customer and the items present. A replay answers with
  \<open>orders.get(existingOrderId)\<close>, whatever that is.
\<close>

definition create_handler ::
  "string \<Rightarrow> timestamp \<Rightarrow> string \<Rightarrow> string \<Rightarrow> item list \<Rightarrow> state
     \<Rightarrow> order option response \<times> state" where
  "create_handler uuid now key cid its st =
     (case map_of (idempotencyKeys st) key of
        Some existingOrderId \<Rightarrow>
          (Inr (Success 200 (map_of (orders st) existingOrderId)), st)
      | None \<Rightarrow>
          let (order, st') = createOrder uuid now cid its None st
          in (Inr (Success 201 (Some order)),
              st'\<lparr>idempotencyKeys := AList.update key (orderId order) (idempotencyKeys st')\<rparr>))"

text \<open>
  The route: \<open>validateCreateOrder\<close>, then the handler. The last case is never taken:
  a request that passes validation has all three (lemma \<open>validateCreateOrder_None\<close>).
\<close>

definition post_orders ::
  "string \<Rightarrow> timestamp \<Rightarrow> create_request \<Rightarrow> state \<Rightarrow> order option response \<times> state" where
  "post_orders uuid now req st =
     (case validateCreateOrder req of
        Some failure \<Rightarrow> (Inl failure, st)
      | None \<Rightarrow>
          (case (idempotency_key req, req_customerId req, req_items req) of
             (Some key, Some cid, Some its) \<Rightarrow> create_handler uuid now key cid its st
           | _ \<Rightarrow> (Inl (Failure 500 ''INTERNAL_ERROR'' ''Failed to create order''), st)))"

section \<open>Reading orders\<close>

definition get_order :: "string \<Rightarrow> state \<Rightarrow> order response" where
  "get_order oid st =
     (case map_of (orders st) oid of
        None \<Rightarrow> Inl (Failure 404 ''NOT_FOUND'' ''Order not found'')
      | Some order \<Rightarrow> Inr (Success 200 order))"

text \<open>
  \<open>parseInt(string)\<close> without a radix: leading white space is skipped, then an optional
  sign, then an optional \<open>0x\<close> that selects radix 16, then the longest run of digits;
  no digit gives NaN. The result is the integer that the digits spell, as a Number (an
  engine may drop digits after the twentieth, which no use here can tell). Strings are
  taken over 8-bit characters.
\<close>

definition is_white_space :: "char \<Rightarrow> bool" where
  "is_white_space c \<longleftrightarrow>
     c \<in> set [CHR 0x09, CHR 0x0A, CHR 0x0B, CHR 0x0C, CHR 0x0D, CHR 0x20, CHR 0xA0]"

definition digit_value :: "char \<Rightarrow> nat option" where
  "digit_value c =
     (let n = (of_char c :: nat)
      in if 48 \<le> n \<and> n \<le> 57 then Some (n - 48)
         else if 97 \<le> n \<and> n \<le> 122 then Some (n - 87)
         else if 65 \<le> n \<and> n \<le> 90 then Some (n - 55)
         else None)"

definition is_digit :: "nat \<Rightarrow> char \<Rightarrow> bool" where
  "is_digit R c = (case digit_value c of None \<Rightarrow> False | Some d \<Rightarrow> d < R)"

definition digit_of :: "char \<Rightarrow> nat" where
  "digit_of c = (case digit_value c of None \<Rightarrow> 0 | Some d \<Rightarrow> d)"

fun strip_sign :: "string \<Rightarrow> int \<times> string" where
  "strip_sign [] = (1, [])"
| "strip_sign (c # cs) =
     (if c = CHR ''-'' then (- 1, cs) else if c = CHR ''+'' then (1, cs) else (1, c # cs))"

fun strip_prefix :: "string \<Rightarrow> nat \<times> string" where
  "strip_prefix (a # b # cs) =
     (if a = CHR ''0'' \<and> (b = CHR ''x'' \<or> b = CHR ''X'') then (16, cs) else (10, a # b # cs))"
| "strip_prefix cs = (10, cs)"

definition parseInt :: "string \<Rightarrow> jsnum" where
  "parseInt str =
     (let (sign, S) = strip_sign (dropWhile is_white_space str);
          (R, S') = strip_prefix S;
          Z = takeWhile (is_digit R) S'
      in if Z = [] then NaN
         else round_to_double
                (of_int (sign * int (foldl (\<lambda>acc c. acc * R + digit_of c) 0 Z))))"

text \<open>
  \<open>xs.slice(start, end)\<close>: each bound goes through \<open>ToIntegerOrInfinity\<close> (NaN is 0, a
  fraction is truncated), a negative bound counts from the end, and both are clamped
  to the array.
\<close>

definition js_trunc :: "rat \<Rightarrow> int" where
  "js_trunc r = (if 0 \<le> r then \<lfloor>r\<rfloor> else \<lceil>r\<rceil>)"

definition slice_index :: "nat \<Rightarrow> jsnum \<Rightarrow> nat" where
  "slice_index len x =
     (case x of
        NaN \<Rightarrow> 0
      | NegInf \<Rightarrow> 0
      | PosInf \<Rightarrow> len
      | Num r \<Rightarrow>
          let i = js_trunc r
          in if i < 0 then nat (max (int len + i) 0) else nat (min i (int len)))"

definition slice :: "'a list \<Rightarrow> jsnum \<Rightarrow> jsnum \<Rightarrow> 'a list" where
  "slice xs start end =
     (let k = slice_index (length xs) start;
          final = slice_index (length xs) end
      in take (final - k) (drop k xs))"

record search_query =
  q_customerId :: "string option"
  q_startDate :: "string option"
  q_endDate :: "string option"
  q_limit :: "string option"
  q_offset :: "string option"

record search_result =
  result_orders :: "order list"
  totalCount :: nat
  limit :: jsnum
  offset :: jsnum

text \<open>
  \<open>GET /api/v1/orders\<close>. \<open>new Date(string)\<close> belongs to the runtime and is a parameter:
  \<open>parseDate s\<close> is the instant that \<open>new Date(s)\<close> denotes, \<open>None\<close> for an invalid
  date. The two date blocks of the handler come first, each either answering 400 or
  narrowing the list.
\<close>

definition filter_startDate ::
  "(string \<Rightarrow> timestamp option) \<Rightarrow> string option \<Rightarrow> order list \<Rightarrow> failure + order list" where
  "filter_startDate parseDate startDate filteredOrders =
     (if truthy_str startDate then
        (case parseDate (case startDate of None \<Rightarrow> [] | Some s \<Rightarrow> s) of
           None \<Rightarrow> Inl (Failure 400 ''VALIDATION_ERROR'' ''Invalid start date format'')
         | Some start \<Rightarrow> Inr (filter (\<lambda>order. start \<le> placementDate order) filteredOrders))
      else Inr filteredOrders)"

definition filter_endDate ::
  "(string \<Rightarrow> timestamp option) \<Rightarrow> string option \<Rightarrow> order list \<Rightarrow> failure + order list" where
  "filter_endDate parseDate endDate filteredOrders =
     (if truthy_str endDate then
        (case parseDate ((case endDate of None \<Rightarrow> [] | Some s \<Rightarrow> s) @ ''T23:59:59.999Z'') of
           None \<Rightarrow> Inl (Failure 400 ''VALIDATION_ERROR'' ''Invalid end date format'')
         | Some end \<Rightarrow> Inr (filter (\<lambda>order. placementDate order \<le> end) filteredOrders))
      else Inr filteredOrders)"

text \<open>
  The sort is stable and puts the newest first; \<open>limit\<close> and \<open>offset\<close> default to
  \<open>20\<close> and \<open>0\<close> when the query has none.
\<close>

definition paginate :: "string option \<Rightarrow> string option \<Rightarrow> order list \<Rightarrow> search_result" where
  "paginate limit_param offset_param filteredOrders =
     (let sorted_orders = sort_key (\<lambda>order. - placementDate order) filteredOrders;
          limitNum =
            Math_min (parseInt (case limit_param of None \<Rightarrow> ''20'' | Some s \<Rightarrow> s)) (Num 100);
          offsetNum = parseInt (case offset_param of None \<Rightarrow> ''0'' | Some s \<Rightarrow> s);
          paginatedOrders = slice sorted_orders offsetNum (js_add offsetNum limitNum)
      in \<lparr>result_orders = paginatedOrders,
          totalCount = length sorted_orders,
          limit = limitNum,
          offset = offsetNum\<rparr>)"

definition get_orders ::
  "(string \<Rightarrow> timestamp option) \<Rightarrow> search_query \<Rightarrow> state \<Rightarrow> search_result response" where
  "get_orders parseDate q st =
     (if \<not> truthy_str (q_customerId q) then
        Inl (Failure 400 ''VALIDATION_ERROR'' ''Customer ID is required'')
      else
        let filteredOrders =
              filter (\<lambda>order. Some (customerId order) = q_customerId q) (map snd (orders st))
        in (case filter_startDate parseDate (q_startDate q) filteredOrders of
              Inl failure \<Rightarrow> Inl failure
            | Inr filteredOrders \<Rightarrow>
                (case filter_endDate parseDate (q_endDate q) filteredOrders of
                   Inl failure \<Rightarrow> Inl failure
                 | Inr filteredOrders \<Rightarrow>
                     Inr (Success 200 (paginate (q_limit q) (q_offset q) filteredOrders)))))"

text \<open>
  \<open>seedData\<close>, which the server runs once it listens: three sample orders, the second
  set to confirmed and the third to shipped. The prices are the binary64 values of
  \<open>29.99\<close>, \<open>15.50\<close> and \<open>99.99\<close>; each order draws its own identifier and clock
  reading.
\<close>

definition sampleOrders :: "(string \<times> item list) list" where
  "sampleOrders =
     [(''cust-12345'',
       [\<lparr>productId = Some ''prod-001'', quantity = Some (Num 2),
          unitPrice = Some (Num (8441434551552573 / 281474976710656))\<rparr>,
        \<lparr>productId = Some ''prod-002'', quantity = Some (Num 1),
          unitPrice = Some (Num (31 / 2))\<rparr>]),
      (''cust-12345'',
       [\<lparr>productId = Some ''prod-003'', quantity = Some (Num 1),
          unitPrice = Some (Num (7036170730324623 / 70368744177664))\<rparr>]),
      (''cust-67890'',
       [\<lparr>productId = Some ''prod-001'', quantity = Some (Num 3),
          unitPrice = Some (Num (8441434551552573 / 281474976710656))\<rparr>])]"

definition seed_order ::
  "nat \<Rightarrow> string \<Rightarrow> timestamp \<Rightarrow> string \<times> item list \<Rightarrow> state \<Rightarrow> state" where
  "seed_order index uuid now orderData st =
     (let (order, st') = createOrder uuid now (fst orderData) (snd orderData) None st;
          order' = (if index = 1 then order\<lparr>status := ''confirmed''\<rparr>
                    else if index = 2 then order\<lparr>status := ''shipped''\<rparr>
                    else order)
      in st'\<lparr>orders := AList.update (orderId order') order' (orders st')\<rparr>)"

fun seed_all ::
  "nat \<Rightarrow> (string \<times> item list) list \<Rightarrow> (string \<times> timestamp) list \<Rightarrow> state \<Rightarrow> state" where
  "seed_all index (orderData # rest) ((uuid, now) # sources) st =
     seed_all (Suc index) rest sources (seed_order index uuid now orderData st)"
| "seed_all index _ _ st = st"

definition seedData ::
  "string \<times> timestamp \<Rightarrow> string \<times> timestamp \<Rightarrow> string \<times> timestamp \<Rightarrow> state \<Rightarrow> state" where
  "seedData s1 s2 s3 st = seed_all 0 sampleOrders [s1, s2, s3] st"

definition empty_state :: state where
  "empty_state = \<lparr>orders = [], idempotencyKeys = []\<rparr>"

text \<open>
  The states of a run: the two maps start empty, and then the seeding and the requests
  come one after the other, each create and each status update with whatever
  identifier and clock reading it gets. The two reading routes change nothing.
\<close>

inductive reachable :: "state \<Rightarrow> bool" where
  initial: "reachable empty_state"
| seeded: "reachable st \<Longrightarrow> reachable (seedData s1 s2 s3 st)"
| created: "reachable st \<Longrightarrow> reachable (snd (post_orders uuid now req st))"
| updated: "reachable st \<Longrightarrow> reachable (snd (patch_status now oid req st))"

section \<open>The specification's words, and example data\<close>

text \<open>The transition table as the specification lists it, row by row.\<close>

definition spec_transition_table :: "(string \<times> string) set" where
  "spec_transition_table =
     {(''pending'', ''confirmed''), (''pending'', ''cancelled''),
      (''confirmed'', ''processing''), (''confirmed'', ''cancelled''),
      (''processing'', ''shipped''), (''processing'', ''cancelled''),
      (''shipped'', ''delivered'')}"

text \<open>
  The request of the specification's example: two of \<open>prod-001\<close> at \<open>29.99\<close> and one of
  \<open>prod-002\<close> at \<open>15.50\<close>, the prices being the binary64 values of these literals.
\<close>

definition example_items :: "item list" where
  "example_items =
     [\<lparr>productId = Some ''prod-001'', quantity = Some (Num 2),
        unitPrice = Some (Num (8441434551552573 / 281474976710656))\<rparr>,
      \<lparr>productId = Some ''prod-002'', quantity = Some (Num 1),
        unitPrice = Some (Num (31 / 2))\<rparr>]"

definition example_request :: create_request where
  "example_request =
     \<lparr>idempotency_key = Some ''key-1'', req_customerId = Some ''cust-1'',
      req_items = Some example_items\<rparr>"

definition example_order :: order where
  "example_order =
     \<lparr>orderId = ''ord-u1'', customerId = ''cust-1'', placementDate = 1000,
      lastUpdated = 1000, status = ''pending'', items = example_items,
      totalAmount = Num (5311432810530079 / 70368744177664), statusReason = None\<rparr>"

text \<open>The state after the example request on the empty maps (lemma \<open>post_orders_example\<close>).\<close>

definition example_state :: state where
  "example_state =
     \<lparr>orders = [(''ord-u1'', example_order)], idempotencyKeys = [(''key-1'', ''ord-u1'')]\<rparr>"

definition confirmed_order :: order where
  "confirmed_order =
     example_order\<lparr>status := ''confirmed'', lastUpdated := 2000,
                    statusReason := Some ''Payment processed''\<rparr>"

definition confirmed_state :: state where
  "confirmed_state = example_state\<lparr>orders := [(''ord-u1'', confirmed_order)]\<rparr>"

text \<open>
  What the specification asks of an item: a product identifier, a strictly positive
  quantity and a unit price that is not negative and, zero counting as absent, not
  zero either.
\<close>

fun js_positive :: "jsnum \<Rightarrow> bool" where
  "js_positive (Num r) = (0 < r)"
| "js_positive PosInf = True"
| "js_positive NegInf = False"
| "js_positive NaN = False"

definition spec_item_ok :: "item \<Rightarrow> bool" where
  "spec_item_ok it \<longleftrightarrow>
     truthy_str (productId it)
     \<and> (case quantity it of None \<Rightarrow> False | Some q \<Rightarrow> js_positive q)
     \<and> (case unitPrice it of None \<Rightarrow> False | Some p \<Rightarrow> js_positive p)"

text \<open>The store invariant: every stored order has one of the six statuses.\<close>

definition status_invariant :: "state \<Rightarrow> bool" where
  "status_invariant st \<longleftrightarrow> (\<forall>(k, ord) \<in> set (orders st). status ord \<in> set validStatuses)"

text \<open>
  The search filter in the specification's words: the customer matches, the placement
  instant is not before the start date when one is given, and not after the end date,
  read at 23:59:59.999 UTC, when one is given. A date that is given is a non-empty
  string.
\<close>

definition spec_lower_bound :: "(string \<Rightarrow> timestamp option) \<Rightarrow> search_query \<Rightarrow> timestamp option"
  where
  "spec_lower_bound parseDate q =
     (case q_startDate q of None \<Rightarrow> None | Some s \<Rightarrow> if s = [] then None else parseDate s)"

definition spec_upper_bound :: "(string \<Rightarrow> timestamp option) \<Rightarrow> search_query \<Rightarrow> timestamp option"
  where
  "spec_upper_bound parseDate q =
     (case q_endDate q of
        None \<Rightarrow> None
      | Some s \<Rightarrow> if s = [] then None else parseDate (s @ ''T23:59:59.999Z''))"

definition spec_kept :: "string \<Rightarrow> timestamp option \<Rightarrow> timestamp option \<Rightarrow> order \<Rightarrow> bool" where
  "spec_kept cid lower upper ord \<longleftrightarrow>
     customerId ord = cid
     \<and> (case lower of None \<Rightarrow> True | Some t \<Rightarrow> t \<le> placementDate ord)
     \<and> (case upper of None \<Rightarrow> True | Some t \<Rightarrow> placementDate ord \<le> t)"

text \<open>
  A \<open>limit\<close> or \<open>offset\<close> of a query in the specification's words: a number written
  in decimal digits, or nothing, which stands for the preset value.
\<close>

definition digit_char :: "nat \<Rightarrow> char" where
  "digit_char d = ''0123456789'' ! d"

fun decimal :: "nat \<Rightarrow> string" where
  "decimal n =
     (if n < 10 then [digit_char n] else decimal (n div 10) @ [digit_char (n mod 10)])"

declare decimal.simps [simp del]

definition spec_given :: "nat \<Rightarrow> string option \<Rightarrow> nat \<Rightarrow> bool" where
  "spec_given preset v n \<longleftrightarrow> (case v of None \<Rightarrow> n = preset | Some s \<Rightarrow> s = decimal n)"

text \<open>
  A store with three orders of \<open>cust-1\<close>, placed at 1000, 3000 and 2000, and one of
  \<open>cust-2\<close>; and a date parser that knows the first of January 1970.
\<close>

definition search_state :: state where
  "search_state =
     \<lparr>orders =
        [(''ord-u1'', example_order),
         (''ord-u2'', example_order\<lparr>orderId := ''ord-u2'', placementDate := 3000\<rparr>),
         (''ord-u3'', example_order\<lparr>orderId := ''ord-u3'', customerId := ''cust-2''\<rparr>),
         (''ord-u4'', example_order\<lparr>orderId := ''ord-u4'', placementDate := 2000\<rparr>)],
      idempotencyKeys = []\<rparr>"

definition example_parseDate :: "string \<Rightarrow> timestamp option" where
  "example_parseDate s =
     (if s = ''1970-01-01'' then Some 0
      else if s = ''1970-01-01T23:59:59.999Z'' then Some 86399999
      else None)"








text \<open>
  Two facts that make the lists behave as the \<open>Map\<close>s they stand for: no key occurs
  twice, and every identifier recorded in the ledger is a key of the store.
\<close>

definition maps_invariant :: "state \<Rightarrow> bool" where
  "maps_invariant st \<longleftrightarrow>
     distinct (map fst (orders st)) \<and> distinct (map fst (idempotencyKeys st))
     \<and> (\<forall>(key, oid) \<in> set (idempotencyKeys st). oid \<in> fst ` set (orders st))"

section \<open>Binary64 arithmetic\<close>

lemma floor_rat_numeral [simp]:
  "\<lfloor>numeral a / numeral b :: rat\<rfloor> = numeral a div numeral b"
  by (metis floor_divide_of_int_eq of_int_numeral)

lemma ceiling_rat_numeral [simp]:
  "\<lceil>numeral a / numeral b :: rat\<rceil> = - (- numeral a div numeral b)"
  by (metis ceiling_divide_eq_div of_int_numeral)

lemma floor_rat_one_numeral [simp]: "\<lfloor>1 / numeral b :: rat\<rfloor> = 1 div numeral b"
  by (metis floor_divide_of_int_eq of_int_1 of_int_numeral)

lemmas double_eval =
  round_to_double_def ilog2_def compute_bitlen round_half_even_def pow2_def Let_def

lemma pow2_pos: "0 < pow2 k"
  by (simp add: pow2_def)

lemma pow2_power_int: "pow2 k = 2 powi k"
  by (simp add: pow2_def power_int_def field_simps)

lemma pow2_Suc: "pow2 (k + 1) = 2 * pow2 k"
  by (simp add: pow2_power_int power_int_add)

lemma pow2_of_nat: "pow2 (int n) = 2 ^ n"
  by (simp add: pow2_def)

lemma pow2_minus: "pow2 (- k) = 1 / pow2 k"
  by (simp add: pow2_power_int power_int_minus field_simps)

text \<open>\<open>ilog2\<close> is the binary exponent.\<close>

lemma ilog2_bounds:
  assumes "0 < x"
  shows "pow2 (ilog2 x) \<le> x \<and> x < pow2 (ilog2 x + 1)"
proof (cases "1 \<le> x")
  case True
  define n where "n = \<lfloor>x\<rfloor>"
  have n: "0 < n" using True by (simp add: n_def)
  define e where "e = bitlen n - 1"
  from bitlen_bounds [OF n]
  have lo: "2 ^ nat e \<le> n" and hi: "n < 2 ^ nat (e + 1)"
    by (simp_all add: e_def)
  have e0: "0 \<le> e"
    using n bitlen_nonneg [of n] bitlen_eq_zero_iff [of n] by (simp add: e_def)
  have il: "ilog2 x = e"
    using True by (simp add: ilog2_def e_def n_def)
  have "(of_int (2 ^ nat e) :: rat) \<le> of_int n"
    using lo by (simp only: of_int_le_iff)
  also have "\<dots> \<le> x"
    using floor_correct [of x] by (simp add: n_def)
  finally have 1: "pow2 e \<le> x"
    using e0 by (simp add: pow2_def)
  from hi have "n + 1 \<le> 2 ^ nat (e + 1)" by simp
  then have "(of_int (n + 1) :: rat) \<le> of_int (2 ^ nat (e + 1))"
    by (simp only: of_int_le_iff)
  moreover have "x < of_int (n + 1)"
    using floor_correct [of x] by (simp add: n_def)
  ultimately have "x < of_int (2 ^ nat (e + 1))"
    by simp
  then have 2: "x < pow2 (e + 1)"
    using e0 by (simp add: pow2_def)
  from 1 2 il show ?thesis by simp
next
  case False
  with assms have x: "0 < x" "x < 1" by simp_all
  define c where "c = \<lceil>1 / x\<rceil>"
  have inv: "1 < 1 / x" using x by simp
  then have "1 < c"
    unfolding c_def by (simp add: less_ceiling_iff)
  then have c2: "2 \<le> c"
    by simp
  define b where "b = bitlen (c - 1)"
  have c1: "0 < c - 1" using c2 by simp
  from bitlen_bounds [OF c1]
  have lo: "2 ^ nat (b - 1) \<le> c - 1" and hi: "c - 1 < 2 ^ nat b"
    by (simp_all add: b_def)
  have b1: "1 \<le> b"
    using c1 bitlen_nonneg [of "c - 1"] bitlen_eq_zero_iff [of "c - 1"] by (simp add: b_def)
  have il: "ilog2 x = - b"
    using False by (simp add: ilog2_def b_def c_def)
  have "1 / x \<le> of_int c"
    unfolding c_def by (rule le_of_int_ceiling)
  also have "(of_int c :: rat) \<le> of_int (2 ^ nat b)"
    using hi by (simp only: of_int_le_iff)
  finally have "1 / x \<le> 2 ^ nat b"
    by simp
  then have "1 / 2 ^ nat b \<le> x"
    using x by (simp add: field_simps)
  then have 1: "pow2 (- b) \<le> x"
    using b1 by (simp add: pow2_def)
  have "(of_int (2 ^ nat (b - 1)) :: rat) \<le> of_int (c - 1)"
    using lo by (simp only: of_int_le_iff)
  moreover have "of_int (c - 1) < 1 / x"
    using ceiling_correct [of "1 / x"] by (simp add: c_def)
  ultimately have "2 ^ nat (b - 1) < 1 / x"
    by simp
  then have "x < 1 / 2 ^ nat (b - 1)"
    using x by (simp add: field_simps)
  moreover have "pow2 (- b + 1) = 1 / 2 ^ nat (b - 1)"
    using b1 by (auto simp: pow2_def)
  ultimately have 2: "x < pow2 (- b + 1)"
    by simp
  from 1 2 il show ?thesis by simp
qed

lemma round_half_even_error: "\<bar>of_int (round_half_even x) - x\<bar> \<le> 1 / 2"
proof -
  define f where "f = \<lfloor>x\<rfloor>"
  define d where "d = x - of_int f"
  have d: "0 \<le> d" "d < 1"
    using floor_correct [of x] by (simp_all add: d_def f_def)
  have r: "round_half_even x
             = (if d < 1 / 2 then f else if 1 / 2 < d then f + 1 else if even f then f else f + 1)"
    by (simp add: round_half_even_def Let_def d_def f_def)
  consider "round_half_even x = f" "d \<le> 1 / 2" | "round_half_even x = f + 1" "1 / 2 \<le> d"
    using r by (cases "d < 1 / 2"; cases "1 / 2 < d"; cases "even f") auto
  then show ?thesis
  proof cases
    case 1
    then show ?thesis using d by (simp add: d_def abs_if)
  next
    case 2
    then show ?thesis using d by (simp add: d_def abs_if)
  qed
qed

text \<open>
  A finite result lies within half a unit of the last place of the exact value, the
  unit being \<open>2^(e - 52)\<close> for a value with binary exponent \<open>e\<close>, and \<open>2^-1074\<close>
  below the normal range; and it is a whole number of such units.
\<close>

lemma round_to_double_nearest:
  assumes "round_to_double x = Num y" and "x \<noteq> 0"
  shows "\<bar>y - x\<bar> \<le> pow2 (max (ilog2 \<bar>x\<bar> - 52) (- 1074)) / 2
    \<and> (\<exists>m. y = of_int m * pow2 (max (ilog2 \<bar>x\<bar> - 52) (- 1074)))"
proof -
  define u where "u = pow2 (max (ilog2 \<bar>x\<bar> - 52) (- 1074))"
  define m where "m = round_half_even (\<bar>x\<bar> / u)"
  have u: "0 < u" unfolding u_def by (rule pow2_pos)
  have "round_to_double x
          = (if pow2 1024 \<le> of_int m * u then (if x < 0 then NegInf else PosInf)
             else Num (sgn x * (of_int m * u)))"
    using assms(2) unfolding round_to_double_def Let_def m_def u_def by (rule if_not_P)
  with assms(1) have y: "y = sgn x * (of_int m * u)"
    by (cases "pow2 1024 \<le> of_int m * u"; cases "x < 0") simp_all
  have "\<bar>of_int m - \<bar>x\<bar> / u\<bar> \<le> 1 / 2"
    unfolding m_def by (rule round_half_even_error)
  then have "\<bar>of_int m - \<bar>x\<bar> / u\<bar> * u \<le> 1 / 2 * u"
    using u by (simp only: mult_le_cancel_right_pos)
  moreover have "\<bar>of_int m - \<bar>x\<bar> / u\<bar> * u = \<bar>of_int m * u - \<bar>x\<bar>\<bar>"
  proof -
    have "\<bar>of_int m - \<bar>x\<bar> / u\<bar> * u = \<bar>(of_int m - \<bar>x\<bar> / u) * u\<bar>"
      using u by (simp only: abs_mult abs_of_pos)
    also have "(of_int m - \<bar>x\<bar> / u) * u = of_int m * u - \<bar>x\<bar>"
      using u by (simp add: left_diff_distrib)
    finally show ?thesis .
  qed
  ultimately have e: "\<bar>of_int m * u - \<bar>x\<bar>\<bar> \<le> u / 2"
    by simp
  have "\<bar>y - x\<bar> = \<bar>of_int m * u - \<bar>x\<bar>\<bar>"
  proof (cases "0 < x")
    case True
    then have "y = of_int m * u" "\<bar>x\<bar> = x"
      by (simp_all add: y)
    then show ?thesis by (simp only:)
  next
    case False
    with assms(2) have neg: "x < 0" by simp
    then have "y = - (of_int m * u)" "\<bar>x\<bar> = - x"
      by (simp_all add: y)
    then have "\<bar>y - x\<bar> = \<bar>- (of_int m * u - \<bar>x\<bar>)\<bar>"
      by (simp only: minus_diff_eq diff_minus_eq_add)
    then show ?thesis by (simp only: abs_minus_cancel)
  qed
  with e have 1: "\<bar>y - x\<bar> \<le> u / 2" by simp
  have "y = of_int (if 0 < x then m else - m) * u"
  proof (cases "0 < x")
    case True
    then show ?thesis by (simp add: y)
  next
    case False
    with assms(2) have "x < 0" by simp
    then show ?thesis by (simp add: y)
  qed
  then have 2: "\<exists>k. y = of_int k * u" by blast
  from 1 2 show ?thesis unfolding u_def by blast
qed

text \<open>
  So rounding moves a value that is not negative by at most the fraction \<open>2^-53\<close> of
  it, or by \<open>2^-1075\<close> below the normal range.
\<close>

lemma round_to_double_error:
  assumes "round_to_double x = Num y" and "0 \<le> x"
  shows "\<bar>y - x\<bar> \<le> x / 2 ^ 53 + 1 / 2 ^ 1075"
proof (cases "x = 0")
  case True
  with assms show ?thesis by (simp add: round_to_double_def)
next
  case False
  with assms have x: "0 < x" by simp
  then have ax: "\<bar>x\<bar> = x" by simp
  define e where "e = ilog2 x"
  from round_to_double_nearest [OF assms(1) False]
  have n: "\<bar>y - x\<bar> \<le> pow2 (max (e - 52) (- 1074)) / 2"
    by (simp add: ax e_def)
  from ilog2_bounds [OF x] have lo: "pow2 e \<le> x"
    by (simp add: e_def)
  show ?thesis
  proof (cases "- 1074 \<le> e - 52")
    case True
    then have "max (e - 52) (- 1074) = e - 52" by simp
    moreover have "pow2 (e - 52) = pow2 e / 2 ^ 52"
      by (simp add: pow2_power_int power_int_diff)
    ultimately have "\<bar>y - x\<bar> \<le> pow2 e / 2 ^ 52 / 2"
      using n by simp
    also have "\<dots> = pow2 e / 2 ^ 53" by simp
    also have "\<dots> \<le> x / 2 ^ 53"
      using lo by (simp add: divide_right_mono)
    finally show ?thesis by simp
  next
    case False
    then have "max (e - 52) (- 1074) = - 1074" by simp
    then have "\<bar>y - x\<bar> \<le> pow2 (- 1074) / 2"
      using n by simp
    also have "\<dots> = 1 / 2 ^ 1075"
      by (simp add: pow2_def)
    finally show ?thesis using x by simp
  qed
qed

text \<open>Integers up to \<open>2^53\<close> are binary64 values, and their sums are exact.\<close>

lemma round_half_even_of_int [simp]: "round_half_even (of_int i) = i"
  by (simp add: round_half_even_def)

lemma round_to_double_of_nat:
  assumes "m \<le> 2 ^ 53"
  shows "round_to_double (of_nat m) = Num (of_nat m)"
proof (cases "m = 0")
  case True
  then show ?thesis by (simp add: round_to_double_def)
next
  case False
  define e where "e = bitlen (int m) - 1"
  have pos: "0 < int m" using False by simp
  from bitlen_bounds [OF pos]
  have lo: "2 ^ nat e \<le> int m" and hi: "int m < 2 ^ nat (e + 1)"
    by (simp_all add: e_def)
  have e0: "0 \<le> e"
    using pos bitlen_nonneg [of "int m"] bitlen_eq_zero_iff [of "int m"] by (simp add: e_def)
  have il: "ilog2 \<bar>of_nat m\<bar> = e"
    using False by (simp add: ilog2_def e_def)
  have "(2::int) ^ nat e \<le> 2 ^ 53"
    using lo assms by (metis (mono_tags) of_nat_le_iff of_nat_numeral of_nat_power order_trans)
  then have "nat e \<le> 53"
    by (rule power_le_imp_le_exp [rotated]) simp
  then have e53: "e \<le> 53"
    by simp
  have q: "max (ilog2 \<bar>of_nat m\<bar> - 52) (- 1074) = e - 52"
    using il e0 by simp
  have ex: "\<exists>i. 0 \<le> i \<and> (of_nat m :: rat) / pow2 (e - 52) = of_int i
                \<and> of_int i * pow2 (e - 52) = (of_nat m :: rat)"
  proof (cases "e \<le> 52")
    case True
    then have "pow2 (e - 52) = 1 / 2 ^ nat (52 - e)"
      by (auto simp: pow2_def)
    then have "(of_nat m :: rat) / pow2 (e - 52) = of_int (int m * 2 ^ nat (52 - e))"
      "of_int (int m * 2 ^ nat (52 - e)) * pow2 (e - 52) = (of_nat m :: rat)"
      by simp_all
    then show ?thesis by (metis mult_nonneg_nonneg of_nat_0_le_iff zero_le_numeral zero_le_power)
  next
    case False
    with e53 have e: "e = 53" by simp
    with lo assms have "int m = 2 ^ 53" by simp
    then have m: "(of_nat m :: rat) = 2 ^ 53"
      by (metis of_int_numeral of_int_of_nat_eq of_int_power)
    have "pow2 (e - 52) = 2" using e by (simp add: pow2_def)
    then have "(of_nat m :: rat) / pow2 (e - 52) = of_int (2 ^ 52)"
      "of_int (2 ^ 52) * pow2 (e - 52) = (of_nat m :: rat)"
      using m by simp_all
    then show ?thesis by (metis zero_le_numeral zero_le_power)
  qed
  then obtain i where i: "(of_nat m :: rat) / pow2 (e - 52) = of_int i"
    "of_int i * pow2 (e - 52) = (of_nat m :: rat)" by blast
  have lt: "\<not> pow2 1024 \<le> (of_nat m :: rat)"
  proof -
    have "(of_nat m :: rat) \<le> 2 ^ 53" using assms
      by (metis of_nat_le_iff of_nat_numeral of_nat_power)
    then show ?thesis by (simp add: pow2_def)
  qed
  show ?thesis
    using False q i lt by (simp add: round_to_double_def Let_def)
qed

lemma js_add_of_nat:
  "k + n \<le> 2 ^ 53 \<Longrightarrow> js_add (Num (of_nat k)) (Num (of_nat n)) = Num (of_nat (k + n))"
  using round_to_double_of_nat [of "k + n"] by simp

text \<open>Rounding never turns a sign, and products and sums of such Numbers are never NaN.\<close>

lemma round_half_even_nonneg: "0 \<le> x \<Longrightarrow> 0 \<le> round_half_even x"
  by (auto simp: round_half_even_def Let_def)

lemma pow2_nonneg: "0 \<le> pow2 k"
  by (simp add: pow2_def)

lemma round_to_double_nonneg:
  assumes "0 \<le> x"
  shows "round_to_double x = PosInf \<or> (\<exists>y. round_to_double x = Num y \<and> 0 \<le> y)"
proof (cases "x = 0")
  case True
  then show ?thesis by (simp add: round_to_double_def)
next
  case False
  with assms have x: "0 < x" by simp
  let ?q = "max (ilog2 \<bar>x\<bar> - 52) (- 1074)"
  have "0 \<le> \<bar>x\<bar> / pow2 ?q"
    by (simp add: pow2_nonneg)
  then have "0 \<le> round_half_even (\<bar>x\<bar> / pow2 ?q)"
    by (rule round_half_even_nonneg)
  then have "0 \<le> of_int (round_half_even (\<bar>x\<bar> / pow2 ?q)) * pow2 ?q"
    by (simp add: pow2_nonneg)
  with x show ?thesis
    by (simp add: round_to_double_def Let_def)
qed




section \<open>Evaluating the examples\<close>

lemma calculateTotal_example:
  "calculateTotal example_items = Num (2655716405265039 / 35184372088832)"
  by (simp add: calculateTotal_def example_items_def toNumber_def double_eval)

lemma totalAmount_example:
  "Number (toFixed 2 (calculateTotal example_items)) = Num (5311432810530079 / 70368744177664)"
  by (simp add: calculateTotal_example toFixed_def double_eval)

lemma validate_example: "validateCreateOrder example_request = None"
  by (simp add: validateCreateOrder_def example_request_def example_items_def
      truthy_str_def truthy_num_def toNumber_def)

lemma map_items_example:
  "map (\<lambda>it. \<lparr>productId = productId it, quantity = quantity it, unitPrice = unitPrice it\<rparr>)
     example_items = example_items"
  by (simp add: example_items_def)

lemma post_orders_example:
  "post_orders ''u1'' 1000 example_request empty_state
     = (Inr (Success 201 (Some example_order)), example_state)"
  unfolding post_orders_def validate_example
  by (simp add: example_request_def create_handler_def createOrder_def empty_state_def
      totalAmount_example map_items_example example_order_def example_state_def Let_def)

section \<open>Status updates: the table and the order of the checks\<close>

lemma transitions_row:
  "cur \<in> set validStatuses \<Longrightarrow>
     \<exists>row. map_of STATUS_TRANSITIONS cur = Some row
         \<and> (\<forall>t. t \<in> set row \<longleftrightarrow> (cur, t) \<in> spec_transition_table)"
  unfolding validStatuses_def STATUS_TRANSITIONS_def spec_transition_table_def
  by auto

lemma validStatuses_nonempty: "s \<in> set validStatuses \<Longrightarrow> s \<noteq> []"
  by (auto simp: validStatuses_def)

text \<open>
  Claim C2. For an order whose status is one of the six and a requested status that is
  one of the six, the update goes through exactly when the pair is in the
  specification's table, and is otherwise refused with 409
  \<open>INVALID_STATUS_TRANSITION\<close> and a message naming the current and the requested
  status. No status may move to itself, and \<open>cancelled\<close> is one step away from
  \<open>pending\<close>, \<open>confirmed\<close> and \<open>processing\<close> only.
\<close>

theorem transitions_follow_table:
  assumes "map_of (orders st) oid = Some ord"
    and "status ord \<in> set validStatuses"
    and "req_status req = Some tgt"
    and "tgt \<in> set validStatuses"
  shows "patch_status now oid req st =
           (if (status ord, tgt) \<in> spec_transition_table then
              (Inr (Success 200
                     (ord\<lparr>status := tgt, lastUpdated := now,
                          statusReason := (if truthy_str (req_reason req) then req_reason req
                                           else statusReason ord)\<rparr>)),
               st\<lparr>orders :=
                     AList.update oid
                       (ord\<lparr>status := tgt, lastUpdated := now,
                            statusReason := (if truthy_str (req_reason req) then req_reason req
                                             else statusReason ord)\<rparr>)
                       (orders st)\<rparr>)
            else
              (Inl (Failure 409 ''INVALID_STATUS_TRANSITION''
                     (''Cannot transition from '' @ status ord @ '' to '' @ tgt)), st))
         \<and> (status ord, status ord) \<notin> spec_transition_table
         \<and> ((status ord, ''cancelled'') \<in> spec_transition_table
              \<longleftrightarrow> status ord \<in> {''pending'', ''confirmed'', ''processing''})"
proof -
  from assms(2) obtain row where row: "map_of STATUS_TRANSITIONS (status ord) = Some row"
    and mem: "\<And>t. t \<in> set row \<longleftrightarrow> (status ord, t) \<in> spec_transition_table"
    using transitions_row by blast
  have "tgt \<noteq> []"
    using assms(4) by (rule validStatuses_nonempty)
  then have "patch_status now oid req st =
           (if (status ord, tgt) \<in> spec_transition_table then
              (Inr (Success 200
                     (ord\<lparr>status := tgt, lastUpdated := now,
                          statusReason := (if truthy_str (req_reason req) then req_reason req
                                           else statusReason ord)\<rparr>)),
               st\<lparr>orders :=
                     AList.update oid
                       (ord\<lparr>status := tgt, lastUpdated := now,
                            statusReason := (if truthy_str (req_reason req) then req_reason req
                                             else statusReason ord)\<rparr>)
                       (orders st)\<rparr>)
            else
              (Inl (Failure 409 ''INVALID_STATUS_TRANSITION''
                     (''Cannot transition from '' @ status ord @ '' to '' @ tgt)), st))"
    using assms row mem by (simp add: patch_status_def Let_def)
  moreover have "(status ord, status ord) \<notin> spec_transition_table"
    by (auto simp: spec_transition_table_def)
  moreover have "(status ord, ''cancelled'') \<in> spec_transition_table
              \<longleftrightarrow> status ord \<in> {''pending'', ''confirmed'', ''processing''}"
    by (auto simp: spec_transition_table_def)
  ultimately show ?thesis by blast
qed

theorem transitions_follow_table_witness:
  "map_of (orders example_state) ''ord-u1'' = Some example_order
   \<and> status example_order \<in> set validStatuses
   \<and> ''delivered'' \<in> set validStatuses
   \<and> patch_status 2000 ''ord-u1'' \<lparr>req_status = Some ''delivered'', req_reason = None\<rparr>
        example_state
       = (Inl (Failure 409 ''INVALID_STATUS_TRANSITION''
                ''Cannot transition from pending to delivered''), example_state)"
proof -
  have a: "map_of (orders example_state) ''ord-u1'' = Some example_order"
    by (simp add: example_state_def)
  have b: "status example_order \<in> set validStatuses"
    by (simp add: example_order_def validStatuses_def)
  have c: "req_status \<lparr>req_status = Some ''delivered'', req_reason = None\<rparr> = Some ''delivered''"
    by simp
  have d: "''delivered'' \<in> set validStatuses"
    by (simp add: validStatuses_def)
  have e: "(status example_order, ''delivered'') \<notin> spec_transition_table"
    by (simp add: example_order_def spec_transition_table_def)
  have f: "status example_order = ''pending''"
    by (simp add: example_order_def)
  show ?thesis
    using transitions_follow_table [OF a b c d, of 2000] a b d e f by simp
qed

lemma join_validStatuses:
  "join validStatuses '', '' = ''pending, confirmed, processing, shipped, delivered, cancelled''"
  by (simp add: validStatuses_def)

text \<open>
  Claim C3. A status update checks, in this order and answering at the first failure:
  the order exists (404 \<open>NOT_FOUND\<close>, whatever the body), the status is present
  (400 \<open>VALIDATION_ERROR\<close>), the status is one of the six (400 \<open>VALIDATION_ERROR\<close>),
  the transition is in the table (409 \<open>INVALID_STATUS_TRANSITION\<close>). A 409 therefore
  comes only for an existing order and a status of the enumeration.
\<close>

theorem status_update_check_order:
  "(map_of (orders st) oid = None \<longrightarrow>
      patch_status now oid req st = (Inl (Failure 404 ''NOT_FOUND'' ''Order not found''), st))
   \<and> (map_of (orders st) oid \<noteq> None \<and> \<not> truthy_str (req_status req) \<longrightarrow>
      patch_status now oid req st
        = (Inl (Failure 400 ''VALIDATION_ERROR'' ''Status is required''), st))
   \<and> (map_of (orders st) oid \<noteq> None \<and> req_status req = Some s \<and> s \<noteq> []
        \<and> s \<notin> set validStatuses \<longrightarrow>
      patch_status now oid req st
        = (Inl (Failure 400 ''VALIDATION_ERROR''
                 ''Invalid status. Must be one of: pending, confirmed, processing, shipped, delivered, cancelled''),
           st))
   \<and> (map_of (orders st) oid = Some ord \<and> status ord \<in> set validStatuses
        \<and> req_status req = Some s \<and> s \<in> set validStatuses
        \<and> (status ord, s) \<notin> spec_transition_table \<longrightarrow>
      patch_status now oid req st
        = (Inl (Failure 409 ''INVALID_STATUS_TRANSITION''
                 (''Cannot transition from '' @ status ord @ '' to '' @ s)), st))
   \<and> (fst (patch_status now oid req st) = Inl (Failure 409 e m) \<longrightarrow>
      map_of (orders st) oid \<noteq> None \<and> (\<exists>t. req_status req = Some t \<and> t \<in> set validStatuses))"
proof (intro conjI impI)
  assume "map_of (orders st) oid = None"
  then show "patch_status now oid req st = (Inl (Failure 404 ''NOT_FOUND'' ''Order not found''), st)"
    by (simp add: patch_status_def)
next
  assume "map_of (orders st) oid \<noteq> None \<and> \<not> truthy_str (req_status req)"
  then show "patch_status now oid req st
        = (Inl (Failure 400 ''VALIDATION_ERROR'' ''Status is required''), st)"
    by (auto simp: patch_status_def truthy_str_def split: option.splits)
next
  assume "map_of (orders st) oid \<noteq> None \<and> req_status req = Some s \<and> s \<noteq> []
        \<and> s \<notin> set validStatuses"
  then show "patch_status now oid req st
        = (Inl (Failure 400 ''VALIDATION_ERROR''
                 ''Invalid status. Must be one of: pending, confirmed, processing, shipped, delivered, cancelled''),
           st)"
    by (auto simp: patch_status_def join_validStatuses)
next
  assume h: "map_of (orders st) oid = Some ord \<and> status ord \<in> set validStatuses
        \<and> req_status req = Some s \<and> s \<in> set validStatuses
        \<and> (status ord, s) \<notin> spec_transition_table"
  then obtain row where "map_of STATUS_TRANSITIONS (status ord) = Some row"
    and "\<And>t. t \<in> set row \<longleftrightarrow> (status ord, t) \<in> spec_transition_table"
    using transitions_row by blast
  with h show "patch_status now oid req st
        = (Inl (Failure 409 ''INVALID_STATUS_TRANSITION''
                 (''Cannot transition from '' @ status ord @ '' to '' @ s)), st)"
    by (simp add: patch_status_def validStatuses_nonempty)
next
  assume "fst (patch_status now oid req st) = Inl (Failure 409 e m)"
  then show "map_of (orders st) oid \<noteq> None"
    by (auto simp: patch_status_def split: option.splits)
next
  assume "fst (patch_status now oid req st) = Inl (Failure 409 e m)"
  then show "\<exists>t. req_status req = Some t \<and> t \<in> set validStatuses"
    by (auto simp: patch_status_def Let_def split: option.splits if_splits)
qed

theorem status_update_check_order_witness:
  "map_of (orders example_state) ''ord-none'' = None
   \<and> patch_status 2000 ''ord-none'' \<lparr>req_status = None, req_reason = None\<rparr> example_state
       = (Inl (Failure 404 ''NOT_FOUND'' ''Order not found''), example_state)
   \<and> map_of (orders example_state) ''ord-u1'' = Some example_order
   \<and> patch_status 2000 ''ord-u1'' \<lparr>req_status = None, req_reason = Some ''why''\<rparr> example_state
       = (Inl (Failure 400 ''VALIDATION_ERROR'' ''Status is required''), example_state)
   \<and> ''invalid-status'' \<notin> set validStatuses
   \<and> patch_status 2000 ''ord-u1'' \<lparr>req_status = Some ''invalid-status'', req_reason = None\<rparr>
        example_state
       = (Inl (Failure 400 ''VALIDATION_ERROR''
                ''Invalid status. Must be one of: pending, confirmed, processing, shipped, delivered, cancelled''),
          example_state)
   \<and> ''shipped'' \<in> set validStatuses
   \<and> (status example_order, ''shipped'') \<notin> spec_transition_table
   \<and> patch_status 2000 ''ord-u1'' \<lparr>req_status = Some ''shipped'', req_reason = None\<rparr>
        example_state
       = (Inl (Failure 409 ''INVALID_STATUS_TRANSITION''
                ''Cannot transition from pending to shipped''), example_state)"
proof -
  have a: "map_of (orders example_state) ''ord-none'' = None"
    and b: "map_of (orders example_state) ''ord-u1'' = Some example_order"
    by (simp_all add: example_state_def)
  have c: "''invalid-status'' \<notin> set validStatuses" and d: "''shipped'' \<in> set validStatuses"
    and e: "status example_order \<in> set validStatuses"
    by (simp_all add: validStatuses_def example_order_def)
  have f: "(status example_order, ''shipped'') \<notin> spec_transition_table"
    and g: "status example_order = ''pending''"
    by (simp_all add: spec_transition_table_def example_order_def)
  show ?thesis
    using
      status_update_check_order [of example_state "''ord-none''" 2000
        "\<lparr>req_status = None, req_reason = None\<rparr>"]
      status_update_check_order [of example_state "''ord-u1''" 2000
        "\<lparr>req_status = None, req_reason = Some ''why''\<rparr>"]
      status_update_check_order [of example_state "''ord-u1''" 2000
        "\<lparr>req_status = Some ''invalid-status'', req_reason = None\<rparr>" "''invalid-status''"]
      status_update_check_order [of example_state "''ord-u1''" 2000
        "\<lparr>req_status = Some ''shipped'', req_reason = None\<rparr>" "''shipped''" example_order]
      a b c d e f g
    by (simp add: truthy_str_def)
qed

text \<open>
  Claim C9. In a status update an empty reason acts exactly as an absent one, and the
  stored \<open>statusReason\<close> is replaced only by a non-empty reason: otherwise it keeps the
  value it had.
\<close>

theorem falsy_reason_keeps_statusReason:
  "patch_status now oid (req\<lparr>req_reason := Some []\<rparr>) st
     = patch_status now oid (req\<lparr>req_reason := None\<rparr>) st
   \<and> (patch_status now oid req st = (Inr (Success c ord'), st')
        \<and> map_of (orders st) oid = Some ord \<longrightarrow>
      map_of (orders st') oid = Some ord'
      \<and> statusReason ord'
          = (if truthy_str (req_reason req) then req_reason req else statusReason ord))"
proof (intro conjI impI)
  show "patch_status now oid (req\<lparr>req_reason := Some []\<rparr>) st
     = patch_status now oid (req\<lparr>req_reason := None\<rparr>) st"
    by (simp add: patch_status_def truthy_str_def Let_def split: option.splits)
next
  assume h: "patch_status now oid req st = (Inr (Success c ord'), st')
        \<and> map_of (orders st) oid = Some ord"
  then show "map_of (orders st') oid = Some ord'"
    by (auto simp: patch_status_def Let_def update_conv' split: option.splits if_splits)
  from h show "statusReason ord'
          = (if truthy_str (req_reason req) then req_reason req else statusReason ord)"
    by (auto simp: patch_status_def Let_def split: option.splits if_splits)
qed

lemma patch_status_example:
  "patch_status 2000 ''ord-u1''
     \<lparr>req_status = Some ''confirmed'', req_reason = Some ''Payment processed''\<rparr> example_state
   = (Inr (Success 200 confirmed_order), confirmed_state)"
  by (simp add: patch_status_def example_state_def example_order_def validStatuses_def
      STATUS_TRANSITIONS_def truthy_str_def confirmed_order_def confirmed_state_def Let_def)

lemma patch_status_example2:
  "patch_status 3000 ''ord-u1'' \<lparr>req_status = Some ''processing'', req_reason = Some []\<rparr>
     confirmed_state
   = (Inr (Success 200 (confirmed_order\<lparr>status := ''processing'', lastUpdated := 3000\<rparr>)),
      confirmed_state\<lparr>orders :=
        [(''ord-u1'', confirmed_order\<lparr>status := ''processing'', lastUpdated := 3000\<rparr>)]\<rparr>)"
  by (simp add: patch_status_def example_state_def example_order_def validStatuses_def
      STATUS_TRANSITIONS_def truthy_str_def confirmed_order_def confirmed_state_def Let_def)

theorem falsy_reason_keeps_statusReason_witness:
  "patch_status 3000 ''ord-u1'' \<lparr>req_status = Some ''processing'', req_reason = Some []\<rparr>
     confirmed_state
   = (Inr (Success 200 (confirmed_order\<lparr>status := ''processing'', lastUpdated := 3000\<rparr>)),
      confirmed_state\<lparr>orders :=
        [(''ord-u1'', confirmed_order\<lparr>status := ''processing'', lastUpdated := 3000\<rparr>)]\<rparr>)
   \<and> map_of (orders confirmed_state) ''ord-u1'' = Some confirmed_order
   \<and> statusReason confirmed_order = Some ''Payment processed''
   \<and> statusReason (confirmed_order\<lparr>status := ''processing'', lastUpdated := 3000\<rparr>)
       = statusReason confirmed_order"
proof -
  have a: "map_of (orders confirmed_state) ''ord-u1'' = Some confirmed_order"
    by (simp add: confirmed_state_def)
  have b: "statusReason confirmed_order = Some ''Payment processed''"
    by (simp add: confirmed_order_def)
  from falsy_reason_keeps_statusReason
    [of 3000 "''ord-u1''" "\<lparr>req_status = Some ''processing'', req_reason = Some []\<rparr>"
      confirmed_state 200 "confirmed_order\<lparr>status := ''processing'', lastUpdated := 3000\<rparr>"
      "confirmed_state\<lparr>orders :=
        [(''ord-u1'', confirmed_order\<lparr>status := ''processing'', lastUpdated := 3000\<rparr>)]\<rparr>"
      confirmed_order]
    patch_status_example2 a
  have "statusReason (confirmed_order\<lparr>status := ''processing'', lastUpdated := 3000\<rparr>)
       = statusReason confirmed_order"
    by (simp add: truthy_str_def)
  with patch_status_example2 a b show ?thesis by simp
qed

section \<open>Validation of a create request\<close>

lemma js_positive_iff:
  "js_positive x \<longleftrightarrow> x \<noteq> NaN \<and> x \<noteq> Num 0 \<and> \<not> js_le_zero x"
  by (cases x) auto

lemma js_positive_iff':
  "js_positive x \<longleftrightarrow> x \<noteq> NaN \<and> x \<noteq> Num 0 \<and> \<not> js_lt_zero x"
  by (cases x) auto

lemma spec_item_ok_iff:
  "spec_item_ok it \<longleftrightarrow>
     \<not> (\<not> truthy_str (productId it) \<or> \<not> truthy_num (quantity it)
          \<or> \<not> truthy_num (unitPrice it))
     \<and> \<not> (js_le_zero (toNumber (quantity it)) \<or> js_lt_zero (toNumber (unitPrice it)))"
proof (cases "quantity it")
  case None
  then show ?thesis by (simp add: spec_item_ok_def truthy_num_def)
next
  case q: (Some q)
  show ?thesis
  proof (cases "unitPrice it")
    case None
    then show ?thesis by (simp add: spec_item_ok_def truthy_num_def)
  next
    case (Some p)
    have "js_positive q \<and> js_positive p \<longleftrightarrow>
            (q \<noteq> NaN \<and> q \<noteq> Num 0) \<and> (p \<noteq> NaN \<and> p \<noteq> Num 0)
            \<and> \<not> js_le_zero q \<and> \<not> js_lt_zero p"
      using js_positive_iff [of q] js_positive_iff' [of p] by blast
    then show ?thesis
      using q Some by (auto simp: spec_item_ok_def truthy_num_def toNumber_def)
  qed
qed

lemma validate_item_ok:
  "spec_item_ok it \<Longrightarrow> validate_items (it # rest) = validate_items rest"
  by (simp add: spec_item_ok_iff)

lemma validate_item_bad:
  "\<not> spec_item_ok it \<Longrightarrow>
     validate_items (it # rest)
       = (if \<not> truthy_str (productId it) \<or> \<not> truthy_num (quantity it)
             \<or> \<not> truthy_num (unitPrice it)
          then Some (Failure 400 ''VALIDATION_ERROR''
                      ''Each item must have productId, quantity, and unitPrice'')
          else Some (Failure 400 ''VALIDATION_ERROR''
                      ''Quantity must be positive and unitPrice must be non-negative''))"
  by (simp add: spec_item_ok_iff)


lemma validate_items_None_iff:
  "validate_items its = None \<longleftrightarrow> (\<forall>it \<in> set its. spec_item_ok it)"
proof (induction its)
  case Nil
  show ?case by simp
next
  case (Cons it rest)
  show ?case
  proof (cases "spec_item_ok it")
    case True
    then show ?thesis using Cons.IH by (simp add: validate_item_ok del: validate_items.simps(2))
  next
    case False
    then show ?thesis
      using validate_item_bad [OF False, of rest]
      by (auto simp del: validate_items.simps(2) split: if_splits)
  qed
qed


lemma validateCreateOrder_None:
  "validateCreateOrder req = None \<longleftrightarrow>
     (\<exists>key cid its. idempotency_key req = Some key \<and> key \<noteq> []
        \<and> req_customerId req = Some cid \<and> cid \<noteq> []
        \<and> req_items req = Some its \<and> its \<noteq> [] \<and> (\<forall>it \<in> set its. spec_item_ok it))"
  by (auto simp: validateCreateOrder_def truthy_str_def validate_items_None_iff
      split: option.splits)


lemma example_items_ok: "\<forall>i \<in> set example_items. spec_item_ok i"
  by (simp add: example_items_def spec_item_ok_def truthy_str_def)


section \<open>What the two writing routes do to the maps\<close>

lemma set_update_cases:
  "(k', v') \<in> set (AList.update k v al) \<Longrightarrow> (k', v') = (k, v) \<or> (k', v') \<in> set al"
  by (induction al) (auto split: if_splits)

lemma createOrder_result:
  "createOrder uuid now cid its None st = (ord, st') \<Longrightarrow>
     orderId ord = ''ord-'' @ uuid \<and> customerId ord = cid \<and> placementDate ord = now
     \<and> lastUpdated ord = now \<and> status ord = ''pending''
     \<and> totalAmount ord = Number (toFixed 2 (calculateTotal its))
     \<and> statusReason ord = None
     \<and> st' = st\<lparr>orders := AList.update (''ord-'' @ uuid) ord (orders st)\<rparr>"
  by (auto simp: createOrder_def Let_def)

lemma createOrder_pending: "status (fst (createOrder uuid now cid its oid st)) = ''pending''"
  by (simp add: createOrder_def Let_def)

lemma post_orders_rejected:
  "validateCreateOrder req = Some f \<Longrightarrow> post_orders uuid now req st = (Inl f, st)"
  by (simp add: post_orders_def)

lemma post_orders_replay:
  assumes "validateCreateOrder req = None" and "idempotency_key req = Some key"
    and "map_of (idempotencyKeys st) key = Some oid"
  shows "post_orders uuid now req st = (Inr (Success 200 (map_of (orders st) oid)), st)"
proof -
  from assms(1) obtain cid its where "req_customerId req = Some cid" "req_items req = Some its"
    by (auto simp: validateCreateOrder_None)
  with assms show ?thesis
    by (simp add: post_orders_def create_handler_def)
qed

lemma post_orders_new:
  assumes "validateCreateOrder req = None" and "idempotency_key req = Some key"
    and "map_of (idempotencyKeys st) key = None"
  shows "\<exists>ord cid its. req_customerId req = Some cid \<and> req_items req = Some its
           \<and> createOrder uuid now cid its None st
               = (ord, st\<lparr>orders := AList.update (orderId ord) ord (orders st)\<rparr>)
           \<and> post_orders uuid now req st
               = (Inr (Success 201 (Some ord)),
                  st\<lparr>orders := AList.update (orderId ord) ord (orders st),
                     idempotencyKeys := AList.update key (orderId ord) (idempotencyKeys st)\<rparr>)"
proof -
  from assms(1) obtain cid its where f: "req_customerId req = Some cid" "req_items req = Some its"
    by (auto simp: validateCreateOrder_None)
  obtain ord st' where c: "createOrder uuid now cid its None st = (ord, st')"
    by (cases "createOrder uuid now cid its None st")
  from createOrder_result [OF c]
  have st': "st' = st\<lparr>orders := AList.update (orderId ord) ord (orders st)\<rparr>"
    by simp
  have "post_orders uuid now req st
               = (Inr (Success 201 (Some ord)),
                  st\<lparr>orders := AList.update (orderId ord) ord (orders st),
                     idempotencyKeys := AList.update key (orderId ord) (idempotencyKeys st)\<rparr>)"
    using assms f c st' by (simp add: post_orders_def create_handler_def)
  with f c st' show ?thesis by blast
qed

lemma post_orders_cases:
  obtains (rejected) f where "post_orders uuid now req st = (Inl f, st)"
  | (replay) b where "post_orders uuid now req st = (Inr (Success 200 b), st)"
  | (new) ord key where "idempotency_key req = Some key"
      "status ord = ''pending''"
      "post_orders uuid now req st
         = (Inr (Success 201 (Some ord)),
            st\<lparr>orders := AList.update (orderId ord) ord (orders st),
               idempotencyKeys := AList.update key (orderId ord) (idempotencyKeys st)\<rparr>)"
proof (cases "validateCreateOrder req")
  case (Some f)
  then show ?thesis using rejected post_orders_rejected by blast
next
  case None
  then obtain key where key: "idempotency_key req = Some key"
    by (auto simp: validateCreateOrder_None)
  show ?thesis
  proof (cases "map_of (idempotencyKeys st) key")
    case (Some oid)
    then show ?thesis using replay post_orders_replay [OF None key] by blast
  next
    case n: None
    from post_orders_new [OF None key n, of uuid now]
    obtain ord cid its where
      c: "createOrder uuid now cid its None st
            = (ord, st\<lparr>orders := AList.update (orderId ord) ord (orders st)\<rparr>)"
      and p: "post_orders uuid now req st
               = (Inr (Success 201 (Some ord)),
                  st\<lparr>orders := AList.update (orderId ord) ord (orders st),
                     idempotencyKeys := AList.update key (orderId ord) (idempotencyKeys st)\<rparr>)"
      by blast
    from createOrder_result [OF c] have "status ord = ''pending''" by simp
    with key p show ?thesis using new by blast
  qed
qed

lemma patch_status_cases:
  obtains (rejected) f where "patch_status now oid req st = (Inl f, st)"
  | (applied) ord s where "map_of (orders st) oid = Some ord" "req_status req = Some s"
      "s \<in> set validStatuses"
      "patch_status now oid req st
         = (Inr (Success 200
                  (ord\<lparr>status := s, lastUpdated := now,
                       statusReason := (if truthy_str (req_reason req) then req_reason req
                                        else statusReason ord)\<rparr>)),
            st\<lparr>orders :=
                 AList.update oid
                   (ord\<lparr>status := s, lastUpdated := now,
                        statusReason := (if truthy_str (req_reason req) then req_reason req
                                         else statusReason ord)\<rparr>)
                   (orders st)\<rparr>)"
proof (cases "map_of (orders st) oid")
  case None
  then have "\<exists>f. patch_status now oid req st = (Inl f, st)"
    by (simp add: patch_status_def)
  then show ?thesis using rejected by blast
next
  case ord: (Some ord)
  show ?thesis
  proof (cases "req_status req")
    case None
    then have "\<exists>f. patch_status now oid req st = (Inl f, st)"
      using ord by (simp add: patch_status_def)
    then show ?thesis using rejected by blast
  next
    case s: (Some s)
    show ?thesis
    proof (cases "s \<noteq> [] \<and> s \<in> set validStatuses")
      case False
      then have "\<exists>f. patch_status now oid req st = (Inl f, st)"
        using ord s by (auto simp: patch_status_def)
      then show ?thesis using rejected by blast
    next
      case valid: True
      show ?thesis
      proof (cases "map_of STATUS_TRANSITIONS (status ord)")
        case None
        then have "\<exists>f. patch_status now oid req st = (Inl f, st)"
          using ord s valid by (simp add: patch_status_def)
        then show ?thesis using rejected by blast
      next
        case (Some targets)
        show ?thesis
        proof (cases "s \<in> set targets")
          case False
          then have "\<exists>f. patch_status now oid req st = (Inl f, st)"
            using ord s valid Some by (simp add: patch_status_def)
          then show ?thesis using rejected by blast
        next
          case True
          then have "patch_status now oid req st
             = (Inr (Success 200
                  (ord\<lparr>status := s, lastUpdated := now,
                       statusReason := (if truthy_str (req_reason req) then req_reason req
                                        else statusReason ord)\<rparr>)),
                st\<lparr>orders :=
                     AList.update oid
                       (ord\<lparr>status := s, lastUpdated := now,
                            statusReason := (if truthy_str (req_reason req) then req_reason req
                                             else statusReason ord)\<rparr>)
                       (orders st)\<rparr>)"
            using ord s valid Some by (simp add: patch_status_def Let_def)
          then show ?thesis using ord s valid applied by blast
        qed
      qed
    qed
  qed
qed

section \<open>The maps of a run\<close>

lemma maps_invariant_store:
  assumes "maps_invariant st"
  shows "maps_invariant (st\<lparr>orders := AList.update k v (orders st)\<rparr>)"
  using assms by (auto simp: maps_invariant_def distinct_update dom_update)

lemma maps_invariant_record:
  assumes "maps_invariant st" and "oid \<in> fst ` set (orders st)"
  shows "maps_invariant (st\<lparr>idempotencyKeys := AList.update key oid (idempotencyKeys st)\<rparr>)"
  using assms by (auto simp: maps_invariant_def distinct_update dest!: set_update_cases)

lemma post_orders_maps_invariant:
  assumes "maps_invariant st"
  shows "maps_invariant (snd (post_orders uuid now req st))"
proof (cases rule: post_orders_cases [of uuid now req st])
  case (rejected f)
  then show ?thesis using assms by simp
next
  case (replay b)
  then show ?thesis using assms by simp
next
  case (new ord key)
  let ?st = "st\<lparr>orders := AList.update (orderId ord) ord (orders st)\<rparr>"
  have 1: "maps_invariant ?st"
    using assms by (rule maps_invariant_store)
  have 2: "orderId ord \<in> fst ` set (orders ?st)"
    by (simp add: dom_update)
  from maps_invariant_record [OF 1 2, of key] show ?thesis
    using new(3) by simp
qed

lemma patch_status_maps_invariant:
  assumes "maps_invariant st"
  shows "maps_invariant (snd (patch_status now oid req st))"
proof (cases rule: patch_status_cases [of now oid req st])
  case (rejected f)
  then show ?thesis using assms by simp
next
  case (applied ord s)
  then show ?thesis using assms by (simp add: maps_invariant_store)
qed

lemma seed_order_maps_invariant:
  assumes "maps_invariant st"
  shows "maps_invariant (seed_order index uuid now orderData st)"
proof -
  obtain ord st' where c: "createOrder uuid now (fst orderData) (snd orderData) None st = (ord, st')"
    by (cases "createOrder uuid now (fst orderData) (snd orderData) None st")
  from createOrder_result [OF c]
  have st': "st' = st\<lparr>orders := AList.update (''ord-'' @ uuid) ord (orders st)\<rparr>"
    by simp
  have "maps_invariant st'"
    unfolding st' using assms by (rule maps_invariant_store)
  then show ?thesis
    using c by (simp add: seed_order_def Let_def maps_invariant_store)
qed

lemma seed_all_maps_invariant:
  "maps_invariant st \<Longrightarrow> maps_invariant (seed_all index samples sources st)"
  by (induction index samples sources st rule: seed_all.induct)
    (simp_all add: seed_order_maps_invariant)

lemma reachable_maps_invariant: "reachable st \<Longrightarrow> maps_invariant st"
proof (induction rule: reachable.induct)
  case initial
  show ?case by (simp add: maps_invariant_def empty_state_def)
next
  case (seeded st s1 s2 s3)
  then show ?case
    by (simp add: seedData_def seed_all_maps_invariant)
next
  case (created st uuid now req)
  then show ?case by (simp add: post_orders_maps_invariant)
next
  case (updated st now oid req)
  then show ?case by (simp add: patch_status_maps_invariant)
qed

lemma reachable_ledger_order:
  assumes "reachable st" and "map_of (idempotencyKeys st) key = Some oid"
  shows "\<exists>ord. map_of (orders st) oid = Some ord"
proof -
  from assms(2) have "(key, oid) \<in> set (idempotencyKeys st)"
    by (rule map_of_SomeD)
  with reachable_maps_invariant [OF assms(1)] have "oid \<in> fst ` set (orders st)"
    by (auto simp: maps_invariant_def)
  then show ?thesis
    by (metis domD dom_map_of_conv_image_fst)
qed

lemma example_state_reachable: "reachable example_state"
  using reachable.created [OF reachable.initial, of "''u1''" 1000 example_request]
  by (simp add: post_orders_example)

section \<open>Replay of a create request\<close>

text \<open>
  Claim C1, as amended. A create request that passes validation and whose idempotency
  key is already in the ledger is answered 200 with the order stored under the
  recorded identifier, which in every state of a run is there, and nothing is stored
  or changed, whatever customer and items the request carries. Validation comes first:
  a request that fails it is answered with that failure, also when its key is in the
  ledger.
\<close>

theorem replay_returns_stored_order:
  "(validateCreateOrder req = None \<and> idempotency_key req = Some key
      \<and> map_of (idempotencyKeys st) key = Some oid \<longrightarrow>
    post_orders uuid now req st = (Inr (Success 200 (map_of (orders st) oid)), st)
    \<and> (reachable st \<longrightarrow> (\<exists>ord. map_of (orders st) oid = Some ord)))
   \<and> (validateCreateOrder req = Some f \<longrightarrow> post_orders uuid now req st = (Inl f, st))"
  using post_orders_replay post_orders_rejected reachable_ledger_order by blast

text \<open>
  The claim as stated fails: after the example request, a second request with the same
  key and no customer identifier, or with no items, gets the validation error and not
  the stored order.
\<close>

theorem replay_without_validation_counterexample:
  "post_orders ''u1'' 1000 example_request empty_state
     = (Inr (Success 201 (Some example_order)), example_state)
   \<and> map_of (idempotencyKeys example_state) ''key-1'' = Some ''ord-u1''
   \<and> idempotency_key (example_request\<lparr>req_customerId := None\<rparr>) = Some ''key-1''
   \<and> post_orders ''u2'' 2000 (example_request\<lparr>req_customerId := None\<rparr>) example_state
       = (Inl (Failure 400 ''VALIDATION_ERROR'' ''Customer ID is required''), example_state)
   \<and> post_orders ''u2'' 2000 (example_request\<lparr>req_items := Some []\<rparr>) example_state
       = (Inl (Failure 400 ''VALIDATION_ERROR'' ''At least one item is required''),
          example_state)
   \<and> fst (post_orders ''u2'' 2000 (example_request\<lparr>req_customerId := None\<rparr>) example_state)
       \<noteq> Inr (Success 200 (map_of (orders example_state) ''ord-u1''))"
proof -
  have "validateCreateOrder (example_request\<lparr>req_customerId := None\<rparr>)
          = Some (Failure 400 ''VALIDATION_ERROR'' ''Customer ID is required'')"
    by (simp add: validateCreateOrder_def example_request_def truthy_str_def)
  then have 1: "post_orders ''u2'' 2000 (example_request\<lparr>req_customerId := None\<rparr>)
       example_state
       = (Inl (Failure 400 ''VALIDATION_ERROR'' ''Customer ID is required''), example_state)"
    by (rule post_orders_rejected)
  have "validateCreateOrder (example_request\<lparr>req_items := Some []\<rparr>)
          = Some (Failure 400 ''VALIDATION_ERROR'' ''At least one item is required'')"
    by (simp add: validateCreateOrder_def example_request_def truthy_str_def)
  then have 2: "post_orders ''u2'' 2000 (example_request\<lparr>req_items := Some []\<rparr>)
       example_state
       = (Inl (Failure 400 ''VALIDATION_ERROR'' ''At least one item is required''),
          example_state)"
    by (rule post_orders_rejected)
  have 3: "map_of (idempotencyKeys example_state) ''key-1'' = Some ''ord-u1''"
    by (simp add: example_state_def)
  have 4: "idempotency_key (example_request\<lparr>req_customerId := None\<rparr>) = Some ''key-1''"
    by (simp add: example_request_def)
  from 1 2 3 4 post_orders_example show ?thesis by simp
qed

text \<open>A replay whose customer differs from the original one, and passes validation.\<close>

theorem replay_returns_stored_order_witness:
  "validateCreateOrder (example_request\<lparr>req_customerId := Some ''cust-2''\<rparr>) = None
   \<and> idempotency_key (example_request\<lparr>req_customerId := Some ''cust-2''\<rparr>) = Some ''key-1''
   \<and> map_of (idempotencyKeys example_state) ''key-1'' = Some ''ord-u1''
   \<and> reachable example_state
   \<and> map_of (orders example_state) ''ord-u1'' = Some example_order
   \<and> post_orders ''u2'' 2000 (example_request\<lparr>req_customerId := Some ''cust-2''\<rparr>)
        example_state
       = (Inr (Success 200 (Some example_order)), example_state)
   \<and> validateCreateOrder (example_request\<lparr>req_customerId := None\<rparr>)
       = Some (Failure 400 ''VALIDATION_ERROR'' ''Customer ID is required'')
   \<and> post_orders ''u2'' 2000 (example_request\<lparr>req_customerId := None\<rparr>) example_state
       = (Inl (Failure 400 ''VALIDATION_ERROR'' ''Customer ID is required''), example_state)"
proof -
  have v: "validateCreateOrder (example_request\<lparr>req_customerId := Some ''cust-2''\<rparr>) = None"
    using example_items_ok
    by (simp add: validateCreateOrder_None example_request_def example_items_def)
  have k: "idempotency_key (example_request\<lparr>req_customerId := Some ''cust-2''\<rparr>)
             = Some ''key-1''"
    by (simp add: example_request_def)
  have l: "map_of (idempotencyKeys example_state) ''key-1'' = Some ''ord-u1''"
    and o: "map_of (orders example_state) ''ord-u1'' = Some example_order"
    by (simp_all add: example_state_def)
  have r: "validateCreateOrder (example_request\<lparr>req_customerId := None\<rparr>)
       = Some (Failure 400 ''VALIDATION_ERROR'' ''Customer ID is required'')"
    by (simp add: validateCreateOrder_def example_request_def truthy_str_def)
  note T = replay_returns_stored_order
    [where req = "example_request\<lparr>req_customerId := Some ''cust-2''\<rparr>"
       and key = "''key-1''" and st = example_state and oid = "''ord-u1''"
       and uuid = "''u2''" and now = 2000, THEN conjunct1, THEN mp]
  from T v k l
  have "post_orders ''u2'' 2000 (example_request\<lparr>req_customerId := Some ''cust-2''\<rparr>)
          example_state
        = (Inr (Success 200 (map_of (orders example_state) ''ord-u1'')), example_state)
        \<and> (reachable example_state \<longrightarrow>
             (\<exists>ord. map_of (orders example_state) ''ord-u1'' = Some ord))"
    by blast
  with o have 1: "post_orders ''u2'' 2000 (example_request\<lparr>req_customerId := Some ''cust-2''\<rparr>)
        example_state
       = (Inr (Success 200 (Some example_order)), example_state)"
    by simp
  from replay_returns_stored_order
    [where req = "example_request\<lparr>req_customerId := None\<rparr>" and st = example_state
       and uuid = "''u2''" and now = 2000
       and f = "Failure 400 ''VALIDATION_ERROR'' ''Customer ID is required''",
      THEN conjunct2] r
  have 2: "post_orders ''u2'' 2000 (example_request\<lparr>req_customerId := None\<rparr>) example_state
       = (Inl (Failure 400 ''VALIDATION_ERROR'' ''Customer ID is required''), example_state)"
    by simp
  from v k l o r 1 2 example_state_reachable show ?thesis by blast
qed

section \<open>The store invariant\<close>

lemma status_invariant_update:
  "status_invariant st \<Longrightarrow> status ord \<in> set validStatuses \<Longrightarrow>
     status_invariant (st\<lparr>orders := AList.update k ord (orders st)\<rparr>)"
  by (auto simp: status_invariant_def dest: set_update_cases)

lemma status_invariant_ledger [simp]:
  "status_invariant (st\<lparr>idempotencyKeys := l\<rparr>) = status_invariant st"
  by (simp add: status_invariant_def)

lemma pending_valid: "''pending'' \<in> set validStatuses"
  by (simp add: validStatuses_def)

lemma post_orders_status_invariant:
  assumes "status_invariant st"
  shows "status_invariant (snd (post_orders uuid now req st))"
proof (cases rule: post_orders_cases [of uuid now req st])
  case (rejected f)
  then show ?thesis using assms by simp
next
  case (replay b)
  then show ?thesis using assms by simp
next
  case (new ord key)
  have "status_invariant (st\<lparr>orders := AList.update (orderId ord) ord (orders st)\<rparr>)"
    using assms new(2) pending_valid by (simp add: status_invariant_update)
  then have "status_invariant (st\<lparr>orders := AList.update (orderId ord) ord (orders st),
                     idempotencyKeys := AList.update key (orderId ord) (idempotencyKeys st)\<rparr>)"
    by (simp add: status_invariant_def)
  then show ?thesis using new(3) by simp
qed

lemma patch_status_status_invariant:
  assumes "status_invariant st"
  shows "status_invariant (snd (patch_status now oid req st))"
proof (cases rule: patch_status_cases [of now oid req st])
  case (rejected f)
  then show ?thesis using assms by simp
next
  case (applied ord s)
  then show ?thesis using assms by (simp add: status_invariant_update)
qed

lemma seed_order_status_invariant:
  assumes "status_invariant st"
  shows "status_invariant (seed_order index uuid now orderData st)"
proof -
  obtain ord st' where c: "createOrder uuid now (fst orderData) (snd orderData) None st = (ord, st')"
    by (cases "createOrder uuid now (fst orderData) (snd orderData) None st")
  from createOrder_result [OF c]
  have p: "status ord = ''pending''"
    and st': "st' = st\<lparr>orders := AList.update (''ord-'' @ uuid) ord (orders st)\<rparr>"
    by simp_all
  have 1: "status_invariant st'"
    using assms p pending_valid st' by (simp add: status_invariant_update)
  have 2: "status (if index = 1 then ord\<lparr>status := ''confirmed''\<rparr>
                   else if index = 2 then ord\<lparr>status := ''shipped''\<rparr> else ord)
             \<in> set validStatuses"
    using p by (simp add: validStatuses_def)
  show ?thesis
    using c status_invariant_update [OF 1 2] by (simp add: seed_order_def Let_def)
qed

lemma seed_all_status_invariant:
  "status_invariant st \<Longrightarrow> status_invariant (seed_all index samples sources st)"
  by (induction index samples sources st rule: seed_all.induct)
    (simp_all add: seed_order_status_invariant)

lemma seedData_status_invariant:
  "status_invariant st \<Longrightarrow> status_invariant (seedData s1 s2 s3 st)"
  unfolding seedData_def by (rule seed_all_status_invariant)

lemma empty_status_invariant: "status_invariant empty_state"
  by (simp add: status_invariant_def empty_state_def)

text \<open>
  Claim C10. Every order in the store has one of the six statuses, in every state of a
  run: the empty store satisfies this, and the seeding, a create and a status update
  each preserve it; \<open>createOrder\<close> always writes \<open>pending\<close>, and a status update that
  goes through writes the requested status, which it has checked to be one of the six.
\<close>

theorem store_status_invariant:
  "(reachable st \<longrightarrow> status_invariant st)
   \<and> status_invariant empty_state
   \<and> (status_invariant st' \<longrightarrow>
        status_invariant (seedData s1 s2 s3 st')
        \<and> status_invariant (snd (post_orders uuid now req st'))
        \<and> status_invariant (snd (patch_status now oid sreq st')))
   \<and> status (fst (createOrder uuid now cid its ident st')) = ''pending''
   \<and> (patch_status now oid sreq st' = (Inr (Success c ord), st'') \<longrightarrow>
        req_status sreq = Some (status ord) \<and> status ord \<in> set validStatuses)"
proof (intro conjI impI)
  assume "reachable st"
  then show "status_invariant st"
    by (induction rule: reachable.induct)
      (simp_all add: empty_status_invariant seedData_status_invariant
        post_orders_status_invariant patch_status_status_invariant)
next
  assume h: "patch_status now oid sreq st' = (Inr (Success c ord), st'')"
  show "req_status sreq = Some (status ord)"
    using h by (cases rule: patch_status_cases [of now oid sreq st']) auto
  show "status ord \<in> set validStatuses"
    using h by (cases rule: patch_status_cases [of now oid sreq st']) auto
qed (simp_all add: empty_status_invariant seedData_status_invariant
      post_orders_status_invariant patch_status_status_invariant createOrder_pending)

lemma seedData_statuses:
  "map (\<lambda>(k, ord). (k, status ord))
     (orders (seedData (''a'', 1) (''b'', 2) (''c'', 3) empty_state))
     = [(''ord-a'', ''pending''), (''ord-b'', ''confirmed''), (''ord-c'', ''shipped'')]"
  by (simp add: seedData_def sampleOrders_def seed_order_def createOrder_def empty_state_def
      Let_def)

theorem store_status_invariant_witness:
  "reachable (seedData (''a'', 1) (''b'', 2) (''c'', 3) empty_state)
   \<and> status_invariant (seedData (''a'', 1) (''b'', 2) (''c'', 3) empty_state)
   \<and> map (\<lambda>(k, ord). (k, status ord))
        (orders (seedData (''a'', 1) (''b'', 2) (''c'', 3) empty_state))
       = [(''ord-a'', ''pending''), (''ord-b'', ''confirmed''), (''ord-c'', ''shipped'')]
   \<and> status_invariant example_state
   \<and> status_invariant (snd (post_orders ''u2'' 2000 example_request example_state))
   \<and> patch_status 2000 ''ord-u1''
        \<lparr>req_status = Some ''confirmed'', req_reason = Some ''Payment processed''\<rparr>
        example_state
       = (Inr (Success 200 confirmed_order), confirmed_state)
   \<and> status confirmed_order \<in> set validStatuses
   \<and> status_invariant confirmed_state"
proof -
  note T = store_status_invariant
    [where st = "seedData (''a'', 1) (''b'', 2) (''c'', 3) empty_state"
       and st' = example_state and uuid = "''u2''" and now = 2000 and req = example_request
       and oid = "''ord-u1''"
       and sreq = "\<lparr>req_status = Some ''confirmed'', req_reason = Some ''Payment processed''\<rparr>"
       and c = 200 and ord = confirmed_order and st'' = confirmed_state]
  have r: "reachable (seedData (''a'', 1) (''b'', 2) (''c'', 3) empty_state)"
    by (rule reachable.seeded) (rule reachable.initial)
  have e: "status_invariant example_state"
    by (simp add: status_invariant_def example_state_def example_order_def validStatuses_def)
  from T r have 1: "status_invariant (seedData (''a'', 1) (''b'', 2) (''c'', 3) empty_state)"
    by blast
  from T e have 2: "status_invariant (snd (post_orders ''u2'' 2000 example_request example_state))"
    by blast
  from T e patch_status_example have 3: "status_invariant confirmed_state"
    by simp
  from T patch_status_example have 4: "status confirmed_order \<in> set validStatuses"
    by blast
  from r e 1 2 3 4 seedData_statuses patch_status_example show ?thesis
    by blast
qed

section \<open>Frame conditions\<close>

lemma map_of_update_other: "k \<noteq> k' \<Longrightarrow> map_of (AList.update k' v al) k = map_of al k"
  by (simp add: update_conv')

lemma map_of_update_same: "map_of (AList.update k v al) k = Some v"
  by (simp add: update_conv')

lemma update_keeps_keys:
  "map_of al k = Some v \<Longrightarrow> map fst (AList.update k v' al) = map fst al"
  by (simp add: update_keys) (metis domI dom_map_of_conv_image_fst)

text \<open>
  Claim C6. A request that is refused changes neither map. A status update that goes
  through changes one order, the one addressed, and of it only \<open>status\<close>,
  \<open>lastUpdated\<close> and \<open>statusReason\<close>: its identifier, customer, placement date, items
  and total stay, every other order stays, the order of the store stays and the
  ledger stays. A create that goes through is either a replay, which changes nothing,
  or stores the new order and records its key, both, and leaves what the store holds
  under every other identifier as it was.
\<close>

theorem rejected_requests_change_nothing:
  "(fst (post_orders uuid now req st) = Inl f \<longrightarrow> snd (post_orders uuid now req st) = st)
   \<and> (fst (patch_status now oid sreq st) = Inl f \<longrightarrow> snd (patch_status now oid sreq st) = st)
   \<and> (patch_status now oid sreq st = (Inr (Success c ord'), st') \<longrightarrow>
        (\<exists>ord. map_of (orders st) oid = Some ord
           \<and> ord' = ord\<lparr>status := status ord', lastUpdated := lastUpdated ord',
                         statusReason := statusReason ord'\<rparr>
           \<and> orderId ord' = orderId ord \<and> customerId ord' = customerId ord
           \<and> placementDate ord' = placementDate ord \<and> items ord' = items ord
           \<and> totalAmount ord' = totalAmount ord)
        \<and> map_of (orders st') oid = Some ord'
        \<and> (\<forall>k. k \<noteq> oid \<longrightarrow> map_of (orders st') k = map_of (orders st) k)
        \<and> map fst (orders st') = map fst (orders st)
        \<and> idempotencyKeys st' = idempotencyKeys st)
   \<and> (post_orders uuid now req st = (Inr (Success c b), st') \<longrightarrow>
        (c = 200 \<and> st' = st)
        \<or> (c = 201
            \<and> (\<exists>ord key. b = Some ord \<and> idempotency_key req = Some key
                  \<and> map_of (orders st') (orderId ord) = Some ord
                  \<and> map_of (idempotencyKeys st') key = Some (orderId ord)
                  \<and> (\<forall>k. k \<noteq> orderId ord \<longrightarrow> map_of (orders st') k = map_of (orders st) k))))"
proof (intro conjI impI)
  assume "fst (post_orders uuid now req st) = Inl f"
  then show "snd (post_orders uuid now req st) = st"
    by (cases rule: post_orders_cases [of uuid now req st]) auto
next
  assume "fst (patch_status now oid sreq st) = Inl f"
  then show "snd (patch_status now oid sreq st) = st"
    by (cases rule: patch_status_cases [of now oid sreq st]) auto
next
  assume h: "post_orders uuid now req st = (Inr (Success c b), st')"
  show "(c = 200 \<and> st' = st)
        \<or> (c = 201
            \<and> (\<exists>ord key. b = Some ord \<and> idempotency_key req = Some key
                  \<and> map_of (orders st') (orderId ord) = Some ord
                  \<and> map_of (idempotencyKeys st') key = Some (orderId ord)
                  \<and> (\<forall>k. k \<noteq> orderId ord \<longrightarrow> map_of (orders st') k = map_of (orders st) k)))"
  proof (cases rule: post_orders_cases [of uuid now req st])
    case (rejected f)
    with h show ?thesis by simp
  next
    case (replay b')
    with h show ?thesis by simp
  next
    case (new ord key)
    with h have c: "c = 201" and b: "b = Some ord"
      and st': "st' = st\<lparr>orders := AList.update (orderId ord) ord (orders st),
               idempotencyKeys := AList.update key (orderId ord) (idempotencyKeys st)\<rparr>"
      by simp_all
    have "map_of (orders st') (orderId ord) = Some ord"
      and "map_of (idempotencyKeys st') key = Some (orderId ord)"
      and "\<forall>k. k \<noteq> orderId ord \<longrightarrow> map_of (orders st') k = map_of (orders st) k"
      by (simp_all add: st' map_of_update_same map_of_update_other)
    with c b new(1) show ?thesis by blast
  qed
next
  assume h: "patch_status now oid sreq st = (Inr (Success c ord'), st')"
  then obtain ord s where ord: "map_of (orders st) oid = Some ord"
    and ord': "ord' = ord\<lparr>status := s, lastUpdated := now,
                  statusReason := (if truthy_str (req_reason sreq) then req_reason sreq
                                   else statusReason ord)\<rparr>"
    and st': "st' = st\<lparr>orders := AList.update oid ord' (orders st)\<rparr>"
    by (cases rule: patch_status_cases [of now oid sreq st]) auto
  show "\<exists>ord. map_of (orders st) oid = Some ord
           \<and> ord' = ord\<lparr>status := status ord', lastUpdated := lastUpdated ord',
                         statusReason := statusReason ord'\<rparr>
           \<and> orderId ord' = orderId ord \<and> customerId ord' = customerId ord
           \<and> placementDate ord' = placementDate ord \<and> items ord' = items ord
           \<and> totalAmount ord' = totalAmount ord"
    using ord ord' by simp
  show "map_of (orders st') oid = Some ord'"
    by (simp add: st' map_of_update_same)
  show "\<forall>k. k \<noteq> oid \<longrightarrow> map_of (orders st') k = map_of (orders st) k"
    by (simp add: st' map_of_update_other)
  show "map fst (orders st') = map fst (orders st)"
    using ord by (simp add: st' update_keeps_keys)
  show "idempotencyKeys st' = idempotencyKeys st"
    by (simp add: st')
qed

theorem rejected_requests_change_nothing_witness:
  "fst (post_orders ''u2'' 2000 (example_request\<lparr>req_customerId := None\<rparr>) example_state)
     = Inl (Failure 400 ''VALIDATION_ERROR'' ''Customer ID is required'')
   \<and> snd (post_orders ''u2'' 2000 (example_request\<lparr>req_customerId := None\<rparr>) example_state)
     = example_state
   \<and> fst (patch_status 2000 ''ord-u1'' \<lparr>req_status = Some ''delivered'', req_reason = None\<rparr>
        example_state)
     = Inl (Failure 409 ''INVALID_STATUS_TRANSITION''
             ''Cannot transition from pending to delivered'')
   \<and> snd (patch_status 2000 ''ord-u1'' \<lparr>req_status = Some ''delivered'', req_reason = None\<rparr>
        example_state)
     = example_state
   \<and> patch_status 2000 ''ord-u1''
        \<lparr>req_status = Some ''confirmed'', req_reason = Some ''Payment processed''\<rparr>
        example_state
       = (Inr (Success 200 confirmed_order), confirmed_state)
   \<and> map_of (orders confirmed_state) ''ord-u1'' = Some confirmed_order
   \<and> totalAmount confirmed_order = totalAmount example_order
   \<and> items confirmed_order = items example_order
   \<and> idempotencyKeys confirmed_state = idempotencyKeys example_state
   \<and> post_orders ''u1'' 1000 example_request empty_state
       = (Inr (Success 201 (Some example_order)), example_state)
   \<and> map_of (orders example_state) (orderId example_order) = Some example_order"
proof -
  have a: "fst (post_orders ''u2'' 2000 (example_request\<lparr>req_customerId := None\<rparr>)
             example_state)
     = Inl (Failure 400 ''VALIDATION_ERROR'' ''Customer ID is required'')"
    by (simp add: post_orders_def validateCreateOrder_def example_request_def truthy_str_def)
  have b: "fst (patch_status 2000 ''ord-u1''
             \<lparr>req_status = Some ''delivered'', req_reason = None\<rparr> example_state)
     = Inl (Failure 409 ''INVALID_STATUS_TRANSITION''
             ''Cannot transition from pending to delivered'')"
    by (simp add: patch_status_def example_state_def example_order_def validStatuses_def
        STATUS_TRANSITIONS_def)
  from rejected_requests_change_nothing
    [of "''u2''" 2000 "example_request\<lparr>req_customerId := None\<rparr>" example_state
      "Failure 400 ''VALIDATION_ERROR'' ''Customer ID is required''", THEN conjunct1] a
  have 1: "snd (post_orders ''u2'' 2000 (example_request\<lparr>req_customerId := None\<rparr>)
             example_state) = example_state"
    by blast
  from rejected_requests_change_nothing
    [of _ 2000 _ example_state
      "Failure 409 ''INVALID_STATUS_TRANSITION'' ''Cannot transition from pending to delivered''"
      "''ord-u1''" "\<lparr>req_status = Some ''delivered'', req_reason = None\<rparr>",
      THEN conjunct2, THEN conjunct1] b
  have 2: "snd (patch_status 2000 ''ord-u1''
             \<lparr>req_status = Some ''delivered'', req_reason = None\<rparr> example_state)
     = example_state"
    by blast
  from rejected_requests_change_nothing
    [of _ 2000 _ example_state _
      "''ord-u1''" "\<lparr>req_status = Some ''confirmed'', req_reason = Some ''Payment processed''\<rparr>"
      200 confirmed_order confirmed_state,
      THEN conjunct2, THEN conjunct2, THEN conjunct1] patch_status_example
  have 3: "map_of (orders confirmed_state) ''ord-u1'' = Some confirmed_order
        \<and> idempotencyKeys confirmed_state = idempotencyKeys example_state"
    by blast
  have 4: "totalAmount confirmed_order = totalAmount example_order
       \<and> items confirmed_order = items example_order"
    by (simp add: confirmed_order_def)
  from rejected_requests_change_nothing
    [of "''u1''" 1000 example_request empty_state _ _ _ 201 _ example_state "Some example_order",
      THEN conjunct2, THEN conjunct2, THEN conjunct2] post_orders_example
  have 5: "map_of (orders example_state) (orderId example_order) = Some example_order"
    by auto
  from a b 1 2 3 4 5 patch_status_example post_orders_example show ?thesis
    by blast
qed

section \<open>Search\<close>

lemmas parseInt_eval =
  parseInt_def is_white_space_def digit_value_def is_digit_def digit_of_def Let_def

lemma parseInt_20: "parseInt ''20'' = Num 20"
  by (simp add: parseInt_eval double_eval)

lemma parseInt_0: "parseInt ''0'' = Num 0"
  by (simp add: parseInt_eval double_eval)

lemma slice_index_of_nat: "slice_index len (Num (of_nat k)) = min k len"
  by (simp add: slice_index_def js_trunc_def Let_def)

lemma slice_of_nat: "slice xs (Num (of_nat k)) (Num (of_nat j)) = take (j - k) (drop k xs)"
proof (cases "k < length xs")
  case True
  then show ?thesis
    by (simp add: slice_def slice_index_of_nat Let_def min_def)
next
  case False
  then show ?thesis
    by (simp add: slice_def slice_index_of_nat Let_def)
qed

lemma filter_startDate_eq:
  "filter_startDate pd (q_startDate q) xs =
     (if truthy_str (q_startDate q) \<and> spec_lower_bound pd q = None then
        Inl (Failure 400 ''VALIDATION_ERROR'' ''Invalid start date format'')
      else Inr (filter (\<lambda>ord. case spec_lower_bound pd q of
                                None \<Rightarrow> True | Some t \<Rightarrow> t \<le> placementDate ord) xs))"
  by (auto simp: filter_startDate_def spec_lower_bound_def truthy_str_def split: option.splits)

lemma filter_endDate_eq:
  "filter_endDate pd (q_endDate q) xs =
     (if truthy_str (q_endDate q) \<and> spec_upper_bound pd q = None then
        Inl (Failure 400 ''VALIDATION_ERROR'' ''Invalid end date format'')
      else Inr (filter (\<lambda>ord. case spec_upper_bound pd q of
                                None \<Rightarrow> True | Some t \<Rightarrow> placementDate ord \<le> t) xs))"
  by (auto simp: filter_endDate_def spec_upper_bound_def truthy_str_def split: option.splits)

lemma get_orders_eq:
  assumes "q_customerId q = Some cid" and "cid \<noteq> []"
  shows "get_orders pd q st =
     (if truthy_str (q_startDate q) \<and> spec_lower_bound pd q = None then
        Inl (Failure 400 ''VALIDATION_ERROR'' ''Invalid start date format'')
      else if truthy_str (q_endDate q) \<and> spec_upper_bound pd q = None then
        Inl (Failure 400 ''VALIDATION_ERROR'' ''Invalid end date format'')
      else
        Inr (Success 200
              (paginate (q_limit q) (q_offset q)
                 (filter (spec_kept cid (spec_lower_bound pd q) (spec_upper_bound pd q))
                    (map snd (orders st))))))"
proof -
  have k: "filter (\<lambda>ord. case spec_upper_bound pd q of
                           None \<Rightarrow> True | Some t \<Rightarrow> placementDate ord \<le> t)
             (filter (\<lambda>ord. case spec_lower_bound pd q of
                               None \<Rightarrow> True | Some t \<Rightarrow> t \<le> placementDate ord)
                (filter (\<lambda>order. Some (customerId order) = q_customerId q) xs))
           = filter (spec_kept cid (spec_lower_bound pd q) (spec_upper_bound pd q)) xs" for xs
    using assms(1) by (induction xs) (auto simp: spec_kept_def)
  have c: "truthy_str (q_customerId q)"
    using assms by (simp add: truthy_str_def)
  show ?thesis
    by (simp add: get_orders_def c filter_startDate_eq filter_endDate_eq Let_def k
        del: filter_filter)
qed

lemma get_orders_no_customer:
  "\<not> truthy_str (q_customerId q) \<Longrightarrow>
     get_orders pd q st = Inl (Failure 400 ''VALIDATION_ERROR'' ''Customer ID is required'')"
  by (simp add: get_orders_def)

lemma get_orders_success:
  assumes "get_orders pd q st = Inr (Success c r)"
  shows "\<exists>cid. q_customerId q = Some cid \<and> cid \<noteq> [] \<and> c = 200
           \<and> r = paginate (q_limit q) (q_offset q)
                   (filter (spec_kept cid (spec_lower_bound pd q) (spec_upper_bound pd q))
                      (map snd (orders st)))"
proof (cases "truthy_str (q_customerId q)")
  case False
  with assms show ?thesis by (simp add: get_orders_no_customer)
next
  case True
  then obtain cid where cid: "q_customerId q = Some cid" "cid \<noteq> []"
    by (auto simp: truthy_str_def split: option.splits)
  from assms show ?thesis
    unfolding get_orders_eq [OF cid] using cid by (auto split: if_splits)
qed

lemma totalCount_paginate [simp]: "totalCount (paginate l off xs) = length xs"
  by (simp add: paginate_def Let_def)

lemma result_orders_paginate:
  "result_orders (paginate l off xs)
     = slice (sort_key (\<lambda>ord. - placementDate ord) xs) (offset (paginate l off xs))
         (js_add (offset (paginate l off xs)) (limit (paginate l off xs)))"
  by (simp add: paginate_def Let_def)

lemma limit_paginate:
  "limit (paginate l off xs)
     = Math_min (parseInt (case l of None \<Rightarrow> ''20'' | Some s \<Rightarrow> s)) (Num 100)"
  by (simp add: paginate_def Let_def)

lemma offset_paginate:
  "offset (paginate l off xs) = parseInt (case off of None \<Rightarrow> ''0'' | Some s \<Rightarrow> s)"
  by (simp add: paginate_def Let_def)

text \<open>Decimal numerals are read back by \<open>parseInt\<close> as the numbers they spell.\<close>

lemma digit_char_props:
  assumes "d < 10"
  shows "digit_value (digit_char d) = Some d" "\<not> is_white_space (digit_char d)"
    "digit_char d \<noteq> CHR ''-''" "digit_char d \<noteq> CHR ''+''" "digit_char d \<noteq> CHR ''x''"
    "digit_char d \<noteq> CHR ''X''"
proof -
  from assms have "d = 0 \<or> d = 1 \<or> d = 2 \<or> d = 3 \<or> d = 4 \<or> d = 5 \<or> d = 6 \<or> d = 7
    \<or> d = 8 \<or> d = 9"
    by arith
  then show "digit_value (digit_char d) = Some d" "\<not> is_white_space (digit_char d)"
    "digit_char d \<noteq> CHR ''-''" "digit_char d \<noteq> CHR ''+''" "digit_char d \<noteq> CHR ''x''"
    "digit_char d \<noteq> CHR ''X''"
    by (auto simp: digit_char_def digit_value_def is_white_space_def)
qed

lemma decimal_digits: "\<forall>c \<in> set (decimal n). \<exists>d < 10. c = digit_char d"
proof (induction n rule: decimal.induct)
  case (1 n)
  show ?case
  proof (cases "n < 10")
    case True
    then show ?thesis by (subst decimal.simps) auto
  next
    case False
    have "\<exists>d < 10. digit_char (n mod 10) = digit_char d"
      by (rule exI [of _ "n mod 10"]) simp
    with False 1 show ?thesis
      by (subst decimal.simps) auto
  qed
qed

lemma decimal_nonempty: "decimal n \<noteq> []"
  by (subst decimal.simps) simp

lemma decimal_value: "foldl (\<lambda>acc c. acc * 10 + digit_of c) 0 (decimal n) = n"
proof (induction n rule: decimal.induct)
  case (1 n)
  show ?case
  proof (cases "n < 10")
    case True
    then show ?thesis
      by (subst decimal.simps) (simp add: digit_of_def digit_char_props)
  next
    case False
    have "n mod 10 < 10" by simp
    then have "digit_of (digit_char (n mod 10)) = n mod 10"
      by (simp only: digit_of_def digit_char_props option.case)
    with False 1 show ?thesis
      by (subst decimal.simps) simp
  qed
qed

lemma parseInt_decimal: "parseInt (decimal n) = round_to_double (of_nat n)"
proof -
  obtain c cs where s: "decimal n = c # cs"
    using decimal_nonempty [of n] by (cases "decimal n") auto
  have all: "\<forall>c \<in> set (decimal n). \<exists>d < 10. c = digit_char d"
    by (rule decimal_digits)
  have "c \<in> set (decimal n)"
    by (simp add: s)
  with all obtain d where d: "d < 10" "c = digit_char d"
    by blast
  have c: "\<not> is_white_space c" "c \<noteq> CHR ''-''" "c \<noteq> CHR ''+''"
    unfolding d(2) using d(1) by (rule digit_char_props)+
  have 1: "dropWhile is_white_space (decimal n) = decimal n"
    unfolding s using c by simp
  have 2: "strip_sign (decimal n) = (1, decimal n)"
    unfolding s using c by simp
  have 3: "strip_prefix (decimal n) = (10, decimal n)"
  proof (cases cs)
    case Nil
    show ?thesis unfolding s Nil by simp
  next
    case (Cons b bs)
    have "b \<in> set (decimal n)"
      by (simp add: s Cons)
    with all obtain e where e: "e < 10" "b = digit_char e" by blast
    have "b \<noteq> CHR ''x''" "b \<noteq> CHR ''X''"
      unfolding e(2) using e(1) by (rule digit_char_props)+
    then show ?thesis unfolding s Cons by simp
  qed
  have "is_digit 10 c'" if "c' \<in> set (decimal n)" for c'
  proof -
    from all that obtain e where e: "e < 10" "c' = digit_char e" by blast
    show ?thesis
      unfolding e(2) is_digit_def using e(1) by (simp add: digit_char_props(1))
  qed
  then have 4: "takeWhile (is_digit 10) (decimal n) = decimal n"
    by (simp add: takeWhile_eq_all_conv)
  have "parseInt (decimal n)
          = round_to_double (of_int (1 * int (foldl (\<lambda>acc c. acc * 10 + digit_of c) 0 (decimal n))))"
    unfolding parseInt_def 1 2 3 4 Let_def prod.case
    using decimal_nonempty [of n] by simp
  then show ?thesis
    by (simp add: decimal_value)
qed

lemma min_limit_of_nat:
  "Math_min (round_to_double (of_nat n)) (Num 100) = Num (of_nat (min n 100))"
proof (cases "n \<le> 100")
  case True
  then have "n \<le> 2 ^ 53" by simp
  from round_to_double_of_nat [OF this] True show ?thesis
    by (simp add: min_def)
next
  case False
  then have "101 \<le> n" by simp
  then have "(of_nat 101 :: rat) \<le> of_nat n" by (rule of_nat_mono)
  then have n: "101 \<le> (of_nat n :: rat)" by simp
  have nn: "0 \<le> (of_nat n :: rat)" by simp
  from round_to_double_nonneg [OF nn]
  consider "round_to_double (of_nat n) = PosInf"
    | y where "round_to_double (of_nat n) = Num y" by blast
  then show ?thesis
  proof cases
    case 1
    with False show ?thesis by (simp add: min_def)
  next
    case (2 y)
    from round_to_double_error [OF 2 nn]
    have "of_nat n - y \<le> of_nat n / 2 ^ 53 + 1 / 2 ^ 1075"
      by (simp add: abs_le_iff)
    then have "of_nat n * (1 - 1 / 2 ^ 53) - 1 / 2 ^ 1075 \<le> y"
      by (simp add: algebra_simps)
    moreover have "(101::rat) * (1 - 1 / 2 ^ 53) \<le> of_nat n * (1 - 1 / 2 ^ 53)"
      using n by (intro mult_right_mono) simp_all
    moreover have "(100::rat) < 101 * (1 - 1 / 2 ^ 53) - 1 / 2 ^ 1075"
      by simp
    ultimately have "100 < y" by linarith
    with 2 False show ?thesis by (simp add: min_def)
  qed
qed


lemma parseInt_given_limit:
  "spec_given 20 v n \<Longrightarrow>
     parseInt (case v of None \<Rightarrow> ''20'' | Some s \<Rightarrow> s) = round_to_double (of_nat n)"
  using round_to_double_of_nat [of 20]
  by (auto simp: spec_given_def parseInt_20 parseInt_decimal split: option.splits)

lemma parseInt_given_offset:
  "spec_given 0 v k \<Longrightarrow>
     parseInt (case v of None \<Rightarrow> ''0'' | Some s \<Rightarrow> s) = round_to_double (of_nat k)"
  using round_to_double_of_nat [of 0]
  by (auto simp: spec_given_def parseInt_0 parseInt_decimal split: option.splits)

text \<open>
  Claim C7. In a search that is answered, \<open>totalCount\<close> is the number of orders the
  filters keep, whatever \<open>limit\<close> and \<open>offset\<close> are: any other pair gives an answer
  with the same count. The answer's \<open>limit\<close> is the smaller of the query's limit, as
  \<open>parseInt\<close> reads it, and 100, and its \<open>offset\<close> is the query's offset; none is
  refused. The page is cut out of the kept orders after they are sorted, newest first,
  from \<open>offset\<close> to \<open>offset + limit\<close>: for a limit \<open>n\<close> and an offset \<open>k\<close> written
  in decimal, or left out and then 20 and 0, the page skips the first \<open>k\<close> of the
  sorted orders and holds the next \<open>min n 100\<close>.
\<close>

theorem search_pagination:
  "get_orders pd q st = Inr (Success c r) \<longrightarrow>
     (\<exists>cid. q_customerId q = Some cid
        \<and> totalCount r
            = length (filter (spec_kept cid (spec_lower_bound pd q) (spec_upper_bound pd q))
                        (map snd (orders st)))
        \<and> limit r
            = Math_min (parseInt (case q_limit q of None \<Rightarrow> ''20'' | Some s \<Rightarrow> s)) (Num 100)
        \<and> offset r = parseInt (case q_offset q of None \<Rightarrow> ''0'' | Some s \<Rightarrow> s)
        \<and> result_orders r
            = slice (sort_key (\<lambda>ord. - placementDate ord)
                       (filter (spec_kept cid (spec_lower_bound pd q) (spec_upper_bound pd q))
                          (map snd (orders st))))
                (offset r) (js_add (offset r) (limit r))
        \<and> (spec_given 20 (q_limit q) n \<and> spec_given 0 (q_offset q) k \<and> k + 100 \<le> 2 ^ 53 \<longrightarrow>
            limit r = Num (of_nat (min n 100)) \<and> offset r = Num (of_nat k)
            \<and> result_orders r
              = take (min n 100) (drop k (sort_key (\<lambda>ord. - placementDate ord)
                   (filter (spec_kept cid (spec_lower_bound pd q) (spec_upper_bound pd q))
                      (map snd (orders st)))))))
     \<and> (\<exists>r'. get_orders pd (q\<lparr>q_limit := l, q_offset := off\<rparr>) st = Inr (Success c r')
            \<and> totalCount r' = totalCount r)
     \<and> (q_limit q = Some lm \<and> parseInt lm = Num x \<longrightarrow> limit r = Num (min x 100))"
proof
  assume h: "get_orders pd q st = Inr (Success c r)"
  from get_orders_success [OF h] obtain cid where cid: "q_customerId q = Some cid" "cid \<noteq> []"
    and c: "c = 200"
    and r: "r = paginate (q_limit q) (q_offset q)
                   (filter (spec_kept cid (spec_lower_bound pd q) (spec_upper_bound pd q))
                      (map snd (orders st)))"
    by blast
  let ?kept = "filter (spec_kept cid (spec_lower_bound pd q) (spec_upper_bound pd q))
                      (map snd (orders st))"
  let ?sorted = "sort_key (\<lambda>ord. - placementDate ord) ?kept"
  have 1: "totalCount r = length ?kept"
    by (simp add: r)
  have lim: "limit r
            = Math_min (parseInt (case q_limit q of None \<Rightarrow> ''20'' | Some s \<Rightarrow> s)) (Num 100)"
    unfolding r by (rule limit_paginate)
  have ofs: "offset r = parseInt (case q_offset q of None \<Rightarrow> ''0'' | Some s \<Rightarrow> s)"
    unfolding r by (rule offset_paginate)
  have 2: "result_orders r = slice ?sorted (offset r) (js_add (offset r) (limit r))"
    unfolding r by (rule result_orders_paginate)
  have 3: "spec_given 20 (q_limit q) n \<and> spec_given 0 (q_offset q) k \<and> k + 100 \<le> 2 ^ 53 \<longrightarrow>
            limit r = Num (of_nat (min n 100)) \<and> offset r = Num (of_nat k)
            \<and> result_orders r = take (min n 100) (drop k ?sorted)"
  proof
    assume a: "spec_given 20 (q_limit q) n \<and> spec_given 0 (q_offset q) k \<and> k + 100 \<le> 2 ^ 53"
    then have gl: "spec_given 20 (q_limit q) n" and go: "spec_given 0 (q_offset q) k"
      and kb: "k \<le> 2 ^ 53"
      by simp_all
    have "limit r = Math_min (round_to_double (of_nat n)) (Num 100)"
      by (simp only: lim parseInt_given_limit [OF gl])
    then have l: "limit r = Num (of_nat (min n 100))"
      by (simp only: min_limit_of_nat)
    have o: "offset r = Num (of_nat k)"
      by (simp only: ofs parseInt_given_offset [OF go] round_to_double_of_nat [OF kb])
    have "min n 100 \<le> 100" by simp
    with a have "k + min n 100 \<le> 2 ^ 53" by linarith
    then have "js_add (offset r) (limit r) = Num (of_nat (k + min n 100))"
      unfolding l o by (rule js_add_of_nat)
    then have "result_orders r = slice ?sorted (Num (of_nat k)) (Num (of_nat (k + min n 100)))"
      using 2 o by simp
    then have "result_orders r = take (min n 100) (drop k ?sorted)"
      by (simp only: slice_of_nat add_diff_cancel_left')
    with l o show "limit r = Num (of_nat (min n 100)) \<and> offset r = Num (of_nat k)
            \<and> result_orders r = take (min n 100) (drop k ?sorted)"
      by blast
  qed
  have b: "spec_lower_bound pd (q\<lparr>q_limit := l, q_offset := off\<rparr>) = spec_lower_bound pd q"
    "spec_upper_bound pd (q\<lparr>q_limit := l, q_offset := off\<rparr>) = spec_upper_bound pd q"
    by (simp_all add: spec_lower_bound_def spec_upper_bound_def)
  have ns: "\<not> (truthy_str (q_startDate q) \<and> spec_lower_bound pd q = None)"
    using h unfolding get_orders_eq [OF cid] by (auto split: if_splits)
  have ne: "\<not> (truthy_str (q_endDate q) \<and> spec_upper_bound pd q = None)"
    using h unfolding get_orders_eq [OF cid] by (auto split: if_splits)
  have "get_orders pd (q\<lparr>q_limit := l, q_offset := off\<rparr>) st
          = Inr (Success c (paginate l off ?kept))"
    using get_orders_eq [of "q\<lparr>q_limit := l, q_offset := off\<rparr>" cid pd st] cid ns ne
    by (simp add: b c)
  then have 4: "\<exists>r'. get_orders pd (q\<lparr>q_limit := l, q_offset := off\<rparr>) st
                   = Inr (Success c r') \<and> totalCount r' = totalCount r"
    using 1 by simp
  have 5: "q_limit q = Some lm \<and> parseInt lm = Num x \<longrightarrow> limit r = Num (min x 100)"
    by (auto simp: lim)
  from cid(1) 1 lim ofs 2 3 4 5
  show "(\<exists>cid. q_customerId q = Some cid
        \<and> totalCount r
            = length (filter (spec_kept cid (spec_lower_bound pd q) (spec_upper_bound pd q))
                        (map snd (orders st)))
        \<and> limit r
            = Math_min (parseInt (case q_limit q of None \<Rightarrow> ''20'' | Some s \<Rightarrow> s)) (Num 100)
        \<and> offset r = parseInt (case q_offset q of None \<Rightarrow> ''0'' | Some s \<Rightarrow> s)
        \<and> result_orders r
            = slice (sort_key (\<lambda>ord. - placementDate ord)
                       (filter (spec_kept cid (spec_lower_bound pd q) (spec_upper_bound pd q))
                          (map snd (orders st))))
                (offset r) (js_add (offset r) (limit r))
        \<and> (spec_given 20 (q_limit q) n \<and> spec_given 0 (q_offset q) k \<and> k + 100 \<le> 2 ^ 53 \<longrightarrow>
            limit r = Num (of_nat (min n 100)) \<and> offset r = Num (of_nat k)
            \<and> result_orders r
              = take (min n 100) (drop k (sort_key (\<lambda>ord. - placementDate ord)
                   (filter (spec_kept cid (spec_lower_bound pd q) (spec_upper_bound pd q))
                      (map snd (orders st)))))))
     \<and> (\<exists>r'. get_orders pd (q\<lparr>q_limit := l, q_offset := off\<rparr>) st = Inr (Success c r')
            \<and> totalCount r' = totalCount r)
     \<and> (q_limit q = Some lm \<and> parseInt lm = Num x \<longrightarrow> limit r = Num (min x 100))"
    by blast
qed


lemma get_orders_example:
  "get_orders example_parseDate
     \<lparr>q_customerId = Some ''cust-1'', q_startDate = None, q_endDate = None,
      q_limit = Some ''150'', q_offset = Some ''1''\<rparr> search_state
   = Inr (Success 200
       \<lparr>result_orders =
           [example_order\<lparr>orderId := ''ord-u4'', placementDate := 2000\<rparr>, example_order],
        totalCount = 3, limit = Num 100, offset = Num 1\<rparr>)"
  by (simp add: get_orders_def truthy_str_def filter_startDate_def filter_endDate_def
      search_state_def example_order_def paginate_def parseInt_eval double_eval
      slice_def slice_index_def js_trunc_def)

lemma parseInt_150: "parseInt ''150'' = Num 150"
  by (simp add: parseInt_eval double_eval)

lemma decimal_150: "decimal 150 = ''150''"
  by (simp add: decimal.simps digit_char_def)

lemma decimal_1: "decimal (Suc 0) = ''1''"
  by (simp add: decimal.simps digit_char_def)

theorem search_pagination_witness:
  "get_orders example_parseDate
     \<lparr>q_customerId = Some ''cust-1'', q_startDate = None, q_endDate = None,
      q_limit = Some ''150'', q_offset = Some ''1''\<rparr> search_state
   = Inr (Success 200
       \<lparr>result_orders =
           [example_order\<lparr>orderId := ''ord-u4'', placementDate := 2000\<rparr>, example_order],
        totalCount = 3, limit = Num 100, offset = Num 1\<rparr>)
   \<and> spec_given 20 (Some ''150'') 150 \<and> spec_given 0 (Some ''1'') 1
   \<and> parseInt ''150'' = Num 150
   \<and> (\<exists>r'. get_orders example_parseDate
              \<lparr>q_customerId = Some ''cust-1'', q_startDate = None, q_endDate = None,
               q_limit = Some ''1'', q_offset = Some ''2''\<rparr> search_state
             = Inr (Success 200 r')
           \<and> totalCount r' = 3)
   \<and> [example_order\<lparr>orderId := ''ord-u4'', placementDate := 2000\<rparr>, example_order]
       = take (min 150 100) (drop 1 (sort_key (\<lambda>ord. - placementDate ord)
           (filter (spec_kept ''cust-1'' None None) (map snd (orders search_state)))))
   \<and> Num 100 = Num (min 150 100)"
proof -
  let ?q = "\<lparr>q_customerId = Some ''cust-1'', q_startDate = None, q_endDate = None,
      q_limit = Some ''150'', q_offset = Some ''1''\<rparr>"
  let ?r = "\<lparr>result_orders =
           [example_order\<lparr>orderId := ''ord-u4'', placementDate := 2000\<rparr>, example_order],
        totalCount = 3, limit = Num 100, offset = Num 1\<rparr>"
  note T = search_pagination
    [where pd = example_parseDate and q = ?q and st = search_state and c = 200 and r = ?r
       and k = 1 and n = 150 and l = "Some ''1''" and off = "Some ''2''" and lm = "''150''"
       and x = 150,
      THEN mp, OF get_orders_example]
  have b: "spec_lower_bound example_parseDate ?q = None"
    "spec_upper_bound example_parseDate ?q = None"
    by (simp_all add: spec_lower_bound_def spec_upper_bound_def)
  have g: "spec_given 20 (q_limit ?q) 150" "spec_given 0 (q_offset ?q) 1"
    by (simp_all add: spec_given_def decimal_150 decimal_1)
  have kb: "(1::nat) + 100 \<le> 2 ^ 53"
    by simp
  from T [THEN conjunct2, THEN conjunct1]
  have 1: "\<exists>r'. get_orders example_parseDate
              \<lparr>q_customerId = Some ''cust-1'', q_startDate = None, q_endDate = None,
               q_limit = Some ''1'', q_offset = Some ''2''\<rparr> search_state
             = Inr (Success 200 r')
           \<and> totalCount r' = 3"
    by simp
  from T [THEN conjunct1] obtain cid where c: "q_customerId ?q = Some cid"
    and d: "spec_given 20 (q_limit ?q) 150 \<and> spec_given 0 (q_offset ?q) 1
              \<and> (1::nat) + 100 \<le> 2 ^ 53 \<longrightarrow>
            limit ?r = Num (of_nat (min 150 100)) \<and> offset ?r = Num (of_nat 1)
            \<and> result_orders ?r
              = take (min 150 100) (drop 1 (sort_key (\<lambda>ord. - placementDate ord)
                   (filter (spec_kept cid (spec_lower_bound example_parseDate ?q)
                              (spec_upper_bound example_parseDate ?q))
                      (map snd (orders search_state)))))"
    by blast
  from c have cid: "cid = ''cust-1''" by simp
  from d g kb have "result_orders ?r
              = take (min 150 100) (drop 1 (sort_key (\<lambda>ord. - placementDate ord)
                   (filter (spec_kept cid (spec_lower_bound example_parseDate ?q)
                              (spec_upper_bound example_parseDate ?q))
                      (map snd (orders search_state)))))"
    by blast
  then have 2: "[example_order\<lparr>orderId := ''ord-u4'', placementDate := 2000\<rparr>, example_order]
       = take (min 150 100) (drop 1 (sort_key (\<lambda>ord. - placementDate ord)
           (filter (spec_kept ''cust-1'' None None) (map snd (orders search_state)))))"
    unfolding b cid by simp
  from T [THEN conjunct2, THEN conjunct2] parseInt_150
  have 3: "Num 100 = Num (min 150 100)"
    by simp
  from g have g': "spec_given 20 (Some ''150'') 150" "spec_given 0 (Some ''1'') 1"
    by simp_all
  from 1 2 3 g' get_orders_example parseInt_150 show ?thesis
    by blast
qed





section \<open>The total amount\<close>



















end
